theory Spec2Isabelle
  imports Complex_Main "HOL-Library.AList" "HOL-Library.Sublist"
begin

section \<open>Conventions of the embedding\<close>

text \<open>
  The ledger engine is written in Python. Its values are embedded as follows.
  \<^item> A Python \<open>str\<close> is a \<open>string\<close>: the list of the bytes of its UTF-8 form, so that
    \<open>s.encode()\<close> is the identity and \<open>bytes\<close> is the same type.
  \<^item> A Python \<open>int\<close> is an \<open>int\<close> (unbounded).
  \<^item> An amount (annotated \<open>float\<close> in the source, integers in its scenarios) is the
    exact value of a finite Python number, a rational; NaN, the infinities and the
    integers too large to convert to a float (adding one to a float raises
    \<open>OverflowError\<close>) are left out. Comparing two amounts is exact, as Python's
    comparison of finite numbers is;
    adding them is not: \<open>total += u.amount\<close> on the float \<open>total\<close> rounds, and so may
    the builtin \<open>sum\<close>. Both belong to the language, not to the repository: the
    functions that add amounts take the float addition as the argument \<open>fadd\<close> and
    the builtin \<open>sum\<close> as the argument \<open>psum\<close>.
  \<^item> \<open>Optional[T]\<close> is \<open>T option\<close>.
  \<^item> A \<open>dict\<close> that the code iterates (\<open>utxo_set\<close>) is an association list in
    insertion order; a \<open>dict\<close> that is only read by key (\<open>signatures\<close>) is a map.
  \<^item> \<open>hashlib.sha256\<close> is a library outside the repository: every function that hashes
    takes it as its first argument \<open>sha\<close>, from the bytes hashed to the bytes of the
    digest. The text that Python prints for an amount inside an f-string is the argument
    \<open>fmt\<close>, and the clock read by \<open>int(time.time())\<close> is the argument \<open>now\<close>.
\<close>

type_synonym bytes = string

section \<open>Formatting inside f-strings\<close>

definition digit_char :: "nat \<Rightarrow> char" where
  "digit_char n = ''0123456789'' ! n"

function str_nat :: "nat \<Rightarrow> string" where
  "str_nat n = (if n < 10 then [digit_char n] else str_nat (n div 10) @ [digit_char (n mod 10)])"
  by pat_completeness auto
termination
  by (relation "measure id") auto

declare str_nat.simps [simp del]

text \<open>\<open>str(i)\<close> for an integer: decimal digits, with a minus sign below zero.\<close>

definition str_int :: "int \<Rightarrow> string" where
  "str_int i = (if i < 0 then CHR ''-'' # str_nat (nat (- i)) else str_nat (nat i))"

text \<open>\<open>f"{x}"\<close> for an optional string: \<open>None\<close> prints as the four letters \<open>None\<close>.\<close>

definition str_opt :: "string option \<Rightarrow> string" where
  "str_opt x = (case x of None \<Rightarrow> ''None'' | Some s \<Rightarrow> s)"

text \<open>The value of a decimal digit string; the inverse of \<open>str_nat\<close>, used in proofs only.\<close>

definition digit_val :: "char \<Rightarrow> nat" where
  "digit_val c = of_char c - 48"

definition digits_val :: "string \<Rightarrow> nat" where
  "digits_val s = foldl (\<lambda>a c. 10 * a + digit_val c) 0 s"

section \<open>Hashing\<close>

definition hex_char :: "nat \<Rightarrow> char" where
  "hex_char n = ''0123456789abcdef'' ! n"

definition hex_byte :: "char \<Rightarrow> string" where
  "hex_byte c = [hex_char (of_char c div 16), hex_char (of_char c mod 16)]"

text \<open>\<open>hashlib.sha256(b).digest()\<close> is \<open>sha b\<close>; \<open>.hexdigest()\<close> is its lower-case hex form.\<close>

definition hexdigest :: "(bytes \<Rightarrow> bytes) \<Rightarrow> bytes \<Rightarrow> string" where
  "hexdigest sha b = concat (map hex_byte (sha b))"

section \<open>Domain model (domain/model.py)\<close>

record Address =
  hash :: string

record UTXO =
  tx_id :: "string option"
  output_index :: int
  amount :: rat
  owner_address :: Address
  lock_script :: "string option"

record TxIn =
  prev_tx_id :: string
  output_index :: int
  signature_script :: "bytes option"

record TxOut =
  amount :: rat
  address :: Address
  lock_script :: "string option"

record Transaction =
  tx_id :: "string option"
  inputs :: "TxIn list"
  outputs :: "TxOut list"
  signatures :: "int \<rightharpoonup> bytes"

record BlockHeader =
  version :: int
  prev_hash :: string
  merkle_root :: string
  timestamp :: int
  nonce :: int
  difficulty :: int
  validator_id :: "string option"

record Block =
  header :: BlockHeader
  transactions :: "Transaction list"

definition reference_key :: "TxIn \<Rightarrow> string" where
  "reference_key inp = prev_tx_id inp @ '':'' @ str_int (TxIn.output_index inp)"

section \<open>Ledger store (adapters/persistence.py)\<close>

text \<open>
  \<open>InMemoryLedgerRepository\<close>: the list of blocks and the UTXO dictionary. The dictionary
  is kept in insertion order, as Python keeps it: assigning to a key that is present
  replaces the value in place, assigning to a new key appends, \<open>del\<close> drops the entry.
\<close>

record ledger =
  blocks :: "Block list"
  utxo_set :: "(string \<times> UTXO) list"

definition init_ledger :: ledger where
  "init_ledger = \<lparr>blocks = [], utxo_set = []\<rparr>"

definition get_block :: "ledger \<Rightarrow> int \<Rightarrow> Block option" where
  "get_block s height =
     (if 0 \<le> height \<and> height < int (length (blocks s)) then Some (blocks s ! nat height)
      else None)"

definition get_latest_block :: "ledger \<Rightarrow> Block option" where
  "get_latest_block s = (if blocks s = [] then None else Some (last (blocks s)))"

definition add_block :: "ledger \<Rightarrow> Block \<Rightarrow> ledger" where
  "add_block s block = s\<lparr>blocks := blocks s @ [block]\<rparr>"

definition utxo_key :: "UTXO \<Rightarrow> string" where
  "utxo_key utxo = str_opt (UTXO.tx_id utxo) @ '':'' @ str_int (UTXO.output_index utxo)"

definition get_utxo :: "ledger \<Rightarrow> string \<Rightarrow> int \<Rightarrow> UTXO option" where
  "get_utxo s tid index = map_of (utxo_set s) (tid @ '':'' @ str_int index)"

definition add_utxo :: "ledger \<Rightarrow> UTXO \<Rightarrow> ledger" where
  "add_utxo s utxo = s\<lparr>utxo_set := AList.update (utxo_key utxo) utxo (utxo_set s)\<rparr>"

definition remove_utxo :: "ledger \<Rightarrow> string \<Rightarrow> ledger" where
  "remove_utxo s k =
     (if k \<in> fst ` set (utxo_set s) then s\<lparr>utxo_set := AList.delete k (utxo_set s)\<rparr>
      else s)"

definition all_utxos :: "ledger \<Rightarrow> UTXO list" where
  "all_utxos s = map snd (utxo_set s)"

section \<open>Transactions (domain/model.py, service_layer/services.py)\<close>

text \<open>\<open>sep.join(parts)\<close>.\<close>

fun join :: "string \<Rightarrow> string list \<Rightarrow> string" where
  "join sep [] = []"
| "join sep [x] = x"
| "join sep (x # y # ys) = x @ sep @ join sep (y # ys)"

definition Transaction_calculate_hash ::
  "(bytes \<Rightarrow> bytes) \<Rightarrow> (rat \<Rightarrow> string) \<Rightarrow> Transaction \<Rightarrow> string" where
  "Transaction_calculate_hash sha fmt tx =
     (let parts = map (\<lambda>inp. prev_tx_id inp @ '':'' @ str_int (TxIn.output_index inp)) (inputs tx)
                  @ map (\<lambda>out. fmt (TxOut.amount out) @ '':'' @ hash (address out)) (outputs tx);
          raw = join ''|'' parts
      in hexdigest sha raw)"

text \<open>
  The exceptions of domain/exceptions.py, each with the data it carries (the message
  text of the first three, built from that data, is left out).
  \<open>InvalidSignatureException\<close> and \<open>DoubleSpendException\<close> are declared by the source and
  raised nowhere in it.
\<close>

datatype error =
    InvalidSignatureException
  | InsufficientFundsException Address rat rat
  | DoubleSpendException "UTXO option"
  | InvalidTransactionException Transaction string

text \<open>
  \<open>Transaction.verify\<close>. The callback \<open>key_lookup\<close> is the caller's: it returns a secret,
  returns \<open>None\<close>, or raises; a raise is \<open>Inl\<close> of the text of the exception. The loop
  runs over \<open>enumerate(self.inputs)\<close>, \<open>idx\<close> being the index of the head of the list.
\<close>

fun verify_loop ::
  "(bytes \<Rightarrow> bytes) \<Rightarrow> string \<Rightarrow> (int \<rightharpoonup> bytes) \<Rightarrow> (TxIn \<Rightarrow> string + string option)
   \<Rightarrow> int \<Rightarrow> TxIn list \<Rightarrow> string + bool" where
  "verify_loop sha tx_hash sigs key_lookup idx [] = Inr True"
| "verify_loop sha tx_hash sigs key_lookup idx (inp # rest) =
     (case sigs idx of
        None \<Rightarrow> Inr False
      | Some sg \<Rightarrow>
          (case key_lookup inp of
             Inl e \<Rightarrow> Inl e
           | Inr None \<Rightarrow> Inr False
           | Inr (Some owner_priv) \<Rightarrow>
               if sha (owner_priv @ tx_hash) \<noteq> sg then Inr False
               else verify_loop sha tx_hash sigs key_lookup (idx + 1) rest))"

definition Transaction_verify ::
  "(bytes \<Rightarrow> bytes) \<Rightarrow> (rat \<Rightarrow> string) \<Rightarrow> Transaction \<Rightarrow> (TxIn \<Rightarrow> string + string option)
   \<Rightarrow> string + bool" where
  "Transaction_verify sha fmt tx key_lookup =
     verify_loop sha (Transaction_calculate_hash sha fmt tx) (signatures tx) key_lookup 0 (inputs tx)"

definition add_signature :: "Transaction \<Rightarrow> int \<Rightarrow> bytes \<Rightarrow> Transaction" where
  "add_signature tx input_index signature = tx\<lparr>signatures := (signatures tx)(input_index \<mapsto> signature)\<rparr>"

text \<open>\<open>TransactionService.sign_transaction\<close> mutates \<open>tx\<close>; the model returns it.\<close>

fun sign_loop ::
  "(bytes \<Rightarrow> bytes) \<Rightarrow> string \<Rightarrow> string \<Rightarrow> int \<Rightarrow> TxIn list \<Rightarrow> Transaction \<Rightarrow> Transaction" where
  "sign_loop sha wallet_priv tx_hash idx [] tx = tx"
| "sign_loop sha wallet_priv tx_hash idx (_ # rest) tx =
     sign_loop sha wallet_priv tx_hash (idx + 1) rest
       (add_signature tx idx (sha (wallet_priv @ tx_hash)))"

definition sign_transaction ::
  "(bytes \<Rightarrow> bytes) \<Rightarrow> (rat \<Rightarrow> string) \<Rightarrow> string \<Rightarrow> Transaction \<Rightarrow> Transaction" where
  "sign_transaction sha fmt wallet_priv tx =
     sign_loop sha wallet_priv (Transaction_calculate_hash sha fmt tx) 0 (inputs tx) tx"

text \<open>
  \<open>TransactionService.verify_transaction\<close>: whatever \<open>tx.verify\<close> raises is wrapped into
  \<open>InvalidTransactionException\<close>, with the transaction and the text of the exception.
\<close>

definition verify_transaction ::
  "(bytes \<Rightarrow> bytes) \<Rightarrow> (rat \<Rightarrow> string) \<Rightarrow> Transaction \<Rightarrow> (TxIn \<Rightarrow> string + string option)
   \<Rightarrow> error + bool" where
  "verify_transaction sha fmt tx key_lookup =
     (case Transaction_verify sha fmt tx key_lookup of
        Inl e \<Rightarrow> Inl (InvalidTransactionException tx e)
      | Inr b \<Rightarrow> Inr b)"

text \<open>
  \<open>TransactionService.create_transaction\<close>. \<open>select_inputs\<close> is its \<open>for u in utxos\<close>
  loop with the \<open>break\<close>; it returns \<open>inputs\<close> and \<open>total\<close> (here \<open>ins\<close> and \<open>tot\<close>)
  as the loop leaves them. An input takes the \<open>tx_id\<close> of the UTXO as its
  \<open>prev_tx_id\<close>; the field is only ever printed into keys, so it is kept as the text
  that an f-string prints for it. \<open>fadd tot a\<close> is the float that \<open>total += a\<close> leaves
  in \<open>total\<close>, and \<open>psum\<close> is the builtin \<open>sum\<close>, which the source calls on the
  output amounts each time it needs the required amount.
\<close>

fun select_inputs ::
  "(rat \<Rightarrow> rat \<Rightarrow> rat) \<Rightarrow> UTXO list \<Rightarrow> rat \<Rightarrow> TxIn list \<Rightarrow> rat \<Rightarrow> TxIn list \<times> rat" where
  "select_inputs fadd [] required ins tot = (ins, tot)"
| "select_inputs fadd (u # us) required ins tot =
     (let ins' = ins @ [\<lparr>prev_tx_id = str_opt (UTXO.tx_id u),
                          TxIn.output_index = UTXO.output_index u,
                          signature_script = None\<rparr>];
          tot' = fadd tot (UTXO.amount u)
      in if tot' \<ge> required then (ins', tot')
         else select_inputs fadd us required ins' tot')"

definition create_transaction ::
  "(bytes \<Rightarrow> bytes) \<Rightarrow> (rat \<Rightarrow> string) \<Rightarrow> (rat \<Rightarrow> rat \<Rightarrow> rat) \<Rightarrow> (rat list \<Rightarrow> rat)
   \<Rightarrow> ledger \<Rightarrow> Address \<Rightarrow> TxOut list \<Rightarrow> error + Transaction" where
  "create_transaction sha fmt fadd psum s from_address outs =
     (let utxos = filter (\<lambda>u. owner_address u = from_address) (all_utxos s);
          required = psum (map TxOut.amount outs)
      in if utxos = [] then Inl (InsufficientFundsException from_address required 0)
         else
           (let (ins, tot) = select_inputs fadd utxos required [] 0
            in if tot < required then Inl (InsufficientFundsException from_address required tot)
               else
                 (let tx = \<lparr>Transaction.tx_id = None, inputs = ins, outputs = outs,
                            signatures = Map.empty\<rparr>
                  in Inr (tx\<lparr>Transaction.tx_id := Some (Transaction_calculate_hash sha fmt tx)\<rparr>))))"

section \<open>Blocks (domain/model.py)\<close>

definition BlockHeader_calculate_hash :: "(bytes \<Rightarrow> bytes) \<Rightarrow> BlockHeader \<Rightarrow> string" where
  "BlockHeader_calculate_hash sha h =
     hexdigest sha
       (str_int (version h) @ '':'' @ prev_hash h @ '':'' @ merkle_root h @ '':''
        @ str_int (timestamp h) @ '':'' @ str_int (nonce h) @ '':'' @ str_int (difficulty h)
        @ '':'' @ str_opt (validator_id h))"

text \<open>
  One pass of the \<open>while\<close> loop of \<open>Block.calculate_merkle_root\<close>: \<open>pad_level\<close> is the
  \<open>append\<close> on an odd length, \<open>new_level\<close> the \<open>for i in range(0, len(tx_hashes), 2)\<close>
  loop, which reads the list at \<open>i\<close> and \<open>i + 1\<close>.
\<close>

definition pad_level :: "string list \<Rightarrow> string list" where
  "pad_level tx_hashes =
     (if length tx_hashes mod 2 = 1 then tx_hashes @ [last tx_hashes] else tx_hashes)"

definition new_level :: "(bytes \<Rightarrow> bytes) \<Rightarrow> string list \<Rightarrow> string list" where
  "new_level sha tx_hashes =
     map (\<lambda>j. hexdigest sha (tx_hashes ! (2 * j) @ tx_hashes ! (2 * j + 1)))
       [0 ..< (length tx_hashes + 1) div 2]"

function merkle_loop :: "(bytes \<Rightarrow> bytes) \<Rightarrow> string list \<Rightarrow> string list" where
  "merkle_loop sha tx_hashes =
     (if length tx_hashes > 1 then merkle_loop sha (new_level sha (pad_level tx_hashes))
      else tx_hashes)"
  by pat_completeness auto
termination
  by (relation "measure (\<lambda>(sha, tx_hashes). length tx_hashes)")
     (auto simp: new_level_def pad_level_def, presburger)

declare merkle_loop.simps [simp del]

definition Block_calculate_merkle_root ::
  "(bytes \<Rightarrow> bytes) \<Rightarrow> (rat \<Rightarrow> string) \<Rightarrow> Block \<Rightarrow> string" where
  "Block_calculate_merkle_root sha fmt block =
     (if transactions block = [] then hexdigest sha []
      else hd (merkle_loop sha (map (Transaction_calculate_hash sha fmt) (transactions block))))"

definition Block_verify :: "(bytes \<Rightarrow> bytes) \<Rightarrow> (rat \<Rightarrow> string) \<Rightarrow> Block \<Rightarrow> bool" where
  "Block_verify sha fmt block =
     (merkle_root (header block) = Block_calculate_merkle_root sha fmt block)"

section \<open>Proof of work (adapters/consensus.py)\<close>

text \<open>
  \<open>ProofOfWorkAdapter.mine\<close> is a \<open>while True\<close> loop: it may never return, and then the
  model's value is \<open>None\<close>. It mutates the header; the model returns the digest and the
  header with its nonce set. \<open>pow_digest\<close> is the digest \<open>h\<close> that the loop computes for
  the nonce \<open>n\<close>.
\<close>

definition pow_digest :: "(bytes \<Rightarrow> bytes) \<Rightarrow> BlockHeader \<Rightarrow> int \<Rightarrow> string" where
  "pow_digest sha block_header n =
     hexdigest sha (prev_hash block_header @ merkle_root block_header @ str_int n
                    @ str_int (timestamp block_header))"

partial_function (option) mine_loop ::
  "(bytes \<Rightarrow> bytes) \<Rightarrow> string \<Rightarrow> BlockHeader \<Rightarrow> int \<Rightarrow> (string \<times> BlockHeader) option" where
  "mine_loop sha target block_header n =
     (if prefix target (pow_digest sha block_header n)
      then Some (pow_digest sha block_header n, block_header\<lparr>nonce := n\<rparr>)
      else mine_loop sha target block_header (n + 1))"

definition mine :: "(bytes \<Rightarrow> bytes) \<Rightarrow> int \<Rightarrow> BlockHeader \<Rightarrow> (string \<times> BlockHeader) option" where
  "mine sha d block_header = mine_loop sha (replicate (nat (max 1 d)) CHR ''0'') block_header 0"

section \<open>Mining service (service_layer/services.py)\<close>

text \<open>The two inner loops of \<open>mine_block\<close> for one transaction, then the outer loop.\<close>

definition spend_inputs :: "ledger \<Rightarrow> Transaction \<Rightarrow> ledger" where
  "spend_inputs s tx =
     foldl (\<lambda>s inp. remove_utxo s (prev_tx_id inp @ '':'' @ str_int (TxIn.output_index inp)))
       s (inputs tx)"

definition add_outputs :: "ledger \<Rightarrow> Transaction \<Rightarrow> ledger" where
  "add_outputs s tx =
     foldl (\<lambda>s (idx, out).
              add_utxo s \<lparr>UTXO.tx_id = Transaction.tx_id tx, UTXO.output_index = int idx,
                          UTXO.amount = TxOut.amount out, owner_address = address out,
                          UTXO.lock_script = None\<rparr>)
       s (enumerate 0 (outputs tx))"

definition update_utxo_set :: "ledger \<Rightarrow> Transaction list \<Rightarrow> ledger" where
  "update_utxo_set s txs = foldl (\<lambda>s tx. add_outputs (spend_inputs s tx) tx) s txs"

text \<open>
  \<open>MiningService.mine_block\<close>, for an adapter of difficulty \<open>d\<close> and a clock that reads
  \<open>now\<close>. The header object is shared by the block and mutated by \<open>mine\<close>, so the block
  that is stored and returned carries the nonce found. When \<open>mine\<close> does not return,
  neither does \<open>mine_block\<close>.
\<close>

definition mine_block ::
  "(bytes \<Rightarrow> bytes) \<Rightarrow> (rat \<Rightarrow> string) \<Rightarrow> int \<Rightarrow> int \<Rightarrow> ledger \<Rightarrow> Transaction list \<Rightarrow> string
   \<Rightarrow> (Block \<times> ledger) option" where
  "mine_block sha fmt d now s txs validator =
     (let prev_hash0 = (case get_latest_block s of
                          Some prev \<Rightarrow> BlockHeader_calculate_hash sha (header prev)
                        | None \<Rightarrow> replicate 64 CHR ''0'');
          header0 = \<lparr>version = 1, prev_hash = prev_hash0, merkle_root = [], timestamp = now,
                     nonce = 0, difficulty = d, validator_id = Some validator\<rparr>;
          block0 = \<lparr>header = header0, transactions = txs\<rparr>;
          block1 = block0\<lparr>header := (header block0)
                      \<lparr>merkle_root := Block_calculate_merkle_root sha fmt block0\<rparr>\<rparr>
      in case mine sha d (header block1) of
           None \<Rightarrow> None
         | Some (block_hash, header2) \<Rightarrow>
             (let block = block1\<lparr>header := header2\<rparr>
              in Some (block, update_utxo_set (add_block s block) txs)))"

text \<open>
  The header that \<open>mine_block\<close> hands to the proof-of-work search: the Merkle root
  filled in, the nonce still 0.
\<close>

definition candidate_header ::
  "(bytes \<Rightarrow> bytes) \<Rightarrow> (rat \<Rightarrow> string) \<Rightarrow> int \<Rightarrow> int \<Rightarrow> ledger \<Rightarrow> Transaction list \<Rightarrow> string
   \<Rightarrow> BlockHeader" where
  "candidate_header sha fmt d now s txs validator =
     (let prev_hash0 = (case get_latest_block s of
                          Some prev \<Rightarrow> BlockHeader_calculate_hash sha (header prev)
                        | None \<Rightarrow> replicate 64 CHR ''0'');
          header0 = \<lparr>version = 1, prev_hash = prev_hash0, merkle_root = [], timestamp = now,
                     nonce = 0, difficulty = d, validator_id = Some validator\<rparr>;
          block0 = \<lparr>header = header0, transactions = txs\<rparr>
      in header0\<lparr>merkle_root := Block_calculate_merkle_root sha fmt block0\<rparr>)"

section \<open>The specification's wording, as definitions\<close>

text \<open>
  The Merkle root as the specification words it: duplicate the last element of a level
  of odd length, replace adjacent pairs by the hash of left followed by right, repeat
  until one element remains; the root of no transactions is the hash of no bytes.
\<close>

definition duplicate_last :: "string list \<Rightarrow> string list" where
  "duplicate_last level = (if odd (length level) then level @ [last level] else level)"

fun hash_pairs :: "(bytes \<Rightarrow> bytes) \<Rightarrow> string list \<Rightarrow> string list" where
  "hash_pairs sha (l # r # rest) = hexdigest sha (l @ r) # hash_pairs sha rest"
| "hash_pairs sha _ = []"

function spec_merkle_root :: "(bytes \<Rightarrow> bytes) \<Rightarrow> string list \<Rightarrow> string" where
  "spec_merkle_root sha [] = hexdigest sha []"
| "spec_merkle_root sha [h] = h"
| "spec_merkle_root sha (a # b # level) =
     spec_merkle_root sha (hash_pairs sha (duplicate_last (a # b # level)))"
  by pat_completeness auto
termination
proof (relation "measure (\<lambda>(sha, level). length level)")
  fix sha :: "bytes \<Rightarrow> bytes" and a b :: string and level :: "string list"
  have len: "length (hash_pairs sha xs) = length xs div 2" for xs
    by (induction sha xs rule: hash_pairs.induct) auto
  show "((sha, hash_pairs sha (duplicate_last (a # b # level))), (sha, a # b # level))
        \<in> measure (\<lambda>(sha, level). length level)"
    by (simp add: len duplicate_last_def) presburger
qed simp

text \<open>
  The effect of one transaction on the UTXO set as the specification words it: the keys
  its inputs reference are removed, then one UTXO per output is added, keyed by the
  transaction's \<open>tx_id\<close> and the position of the output.
\<close>

definition spent_keys :: "Transaction \<Rightarrow> string set" where
  "spent_keys tx = set (map reference_key (inputs tx))"

definition created_utxo :: "Transaction \<Rightarrow> nat \<Rightarrow> UTXO" where
  "created_utxo tx i =
     \<lparr>UTXO.tx_id = Transaction.tx_id tx, UTXO.output_index = int i,
      UTXO.amount = TxOut.amount (outputs tx ! i), owner_address = address (outputs tx ! i),
      UTXO.lock_script = None\<rparr>"

definition created_key :: "Transaction \<Rightarrow> nat \<Rightarrow> string" where
  "created_key tx i = str_opt (Transaction.tx_id tx) @ '':'' @ str_int (int i)"

definition created_utxos :: "Transaction \<Rightarrow> (string \<times> UTXO) list" where
  "created_utxos tx = map (\<lambda>i. (created_key tx i, created_utxo tx i)) [0 ..< length (outputs tx)]"

definition utxo_effect :: "(string \<rightharpoonup> UTXO) \<Rightarrow> Transaction \<Rightarrow> (string \<rightharpoonup> UTXO)" where
  "utxo_effect m tx = (m |` (- spent_keys tx)) ++ map_of (created_utxos tx)"





section \<open>Sample data\<close>

text \<open>
  A small stand-in for the hash function, for running the definitions on concrete
  inputs: two bytes, the first of which is zero exactly when the input holds a \<open>3\<close>.
  Amounts in the samples are whole numbers, printed as integers.
\<close>

definition toy_sha :: "bytes \<Rightarrow> bytes" where
  "toy_sha b = [if CHR ''3'' \<in> set b then CHR 0x00 else CHR 0xFF, CHR 0xAB]"

definition toy_fmt :: "rat \<Rightarrow> string" where
  "toy_fmt r = str_int \<lfloor>r\<rfloor>"

text \<open>
  A stand-in for float addition that rounds as coarsely as can be seen on small
  numbers: the sum is rounded down to a whole number. The stand-in for \<open>sum\<close> is exact.
\<close>

definition toy_fadd :: "rat \<Rightarrow> rat \<Rightarrow> rat" where
  "toy_fadd t a = of_int \<lfloor>t + a\<rfloor>"

definition toy_psum :: "rat list \<Rightarrow> rat" where
  "toy_psum xs = sum_list xs"

definition ex_alice :: Address where "ex_alice = \<lparr>hash = ''alice''\<rparr>"
definition ex_bob :: Address where "ex_bob = \<lparr>hash = ''bob''\<rparr>"
definition ex_carol :: Address where "ex_carol = \<lparr>hash = ''carol''\<rparr>"

definition ex_utxo :: UTXO where
  "ex_utxo = \<lparr>UTXO.tx_id = Some ''g'', UTXO.output_index = 0, UTXO.amount = 100,
              owner_address = ex_carol, UTXO.lock_script = None\<rparr>"

definition ex_store :: ledger where
  "ex_store = \<lparr>blocks = [], utxo_set = [(''g:0'', ex_utxo)]\<rparr>"

definition ex_outputs :: "TxOut list" where
  "ex_outputs = [\<lparr>TxOut.amount = 60, address = ex_alice, TxOut.lock_script = None\<rparr>,
                 \<lparr>TxOut.amount = 40, address = ex_bob, TxOut.lock_script = None\<rparr>]"

definition ex_input :: TxIn where
  "ex_input = \<lparr>prev_tx_id = ''g'', TxIn.output_index = 0, signature_script = None\<rparr>"

definition ex_tx :: Transaction where
  "ex_tx = \<lparr>Transaction.tx_id = Some ''ffab'', inputs = [ex_input], outputs = ex_outputs,
            signatures = Map.empty\<rparr>"

text \<open>A transaction whose two inputs reference the same UTXO, and a lookup of secrets.\<close>

definition ex_double_tx :: Transaction where
  "ex_double_tx = \<lparr>Transaction.tx_id = Some ''ffab'', inputs = [ex_input, ex_input],
                   outputs = ex_outputs, signatures = Map.empty\<rparr>"

definition ex_lookup :: "TxIn \<Rightarrow> string + string option" where
  "ex_lookup inp = Inr (Some ''k'')"

definition ex_header :: BlockHeader where
  "ex_header = \<lparr>version = 1, prev_hash = ''00'', merkle_root = ''ffab'', timestamp = 0,
                nonce = 0, difficulty = 2, validator_id = Some ''miner''\<rparr>"

text \<open>A store whose two UTXOs of one owner hold 4.5 each, and a request for 9.\<close>

definition ex_half_store :: ledger where
  "ex_half_store =
     \<lparr>blocks = [],
      utxo_set = [(''a:0'', \<lparr>UTXO.tx_id = Some ''a'', UTXO.output_index = 0,
                            UTXO.amount = 9 / 2, owner_address = ex_carol,
                            UTXO.lock_script = None\<rparr>),
                  (''a:1'', \<lparr>UTXO.tx_id = Some ''a'', UTXO.output_index = 1,
                            UTXO.amount = 9 / 2, owner_address = ex_carol,
                            UTXO.lock_script = None\<rparr>)]\<rparr>"

definition ex_pay9 :: "TxOut list" where
  "ex_pay9 = [\<lparr>TxOut.amount = 9, address = ex_bob, TxOut.lock_script = None\<rparr>]"

text \<open>
  A transaction that carries as its \<open>tx_id\<close> the \<open>tx_id\<close> of the UTXO it spends, and what
  mining it on the sample store produces.
\<close>

definition ex_same_id_tx :: Transaction where
  "ex_same_id_tx = \<lparr>Transaction.tx_id = Some ''g'', inputs = [ex_input],
                    outputs = ex_outputs, signatures = Map.empty\<rparr>"

text \<open>The blocks and stores that mining the samples produces.\<close>

definition ex_genesis :: Block where
  "ex_genesis = \<lparr>header = \<lparr>version = 1, prev_hash = replicate 64 CHR ''0'',
                             merkle_root = ''ffab'', timestamp = 0, nonce = 3, difficulty = 2,
                             validator_id = Some ''miner''\<rparr>,
                  transactions = []\<rparr>"

definition ex_second :: Block where
  "ex_second = \<lparr>header = \<lparr>version = 1, prev_hash = ''00ab'', merkle_root = ''ffab'',
                            timestamp = 0, nonce = 3, difficulty = 2,
                            validator_id = Some ''miner''\<rparr>,
                 transactions = []\<rparr>"

definition ex_mined :: Block where
  "ex_mined = \<lparr>header = header ex_genesis, transactions = [ex_tx]\<rparr>"

definition ex_store_after :: ledger where
  "ex_store_after =
     \<lparr>blocks = [ex_mined],
      utxo_set = [(''ffab:0'', \<lparr>UTXO.tx_id = Some ''ffab'', UTXO.output_index = 0,
                               UTXO.amount = 60, owner_address = ex_alice,
                               UTXO.lock_script = None\<rparr>),
                  (''ffab:1'', \<lparr>UTXO.tx_id = Some ''ffab'', UTXO.output_index = 1,
                               UTXO.amount = 40, owner_address = ex_bob,
                               UTXO.lock_script = None\<rparr>)]\<rparr>"

definition ex_same_id_mined :: Block where
  "ex_same_id_mined = \<lparr>header = header ex_genesis, transactions = [ex_same_id_tx]\<rparr>"

definition ex_same_id_after :: ledger where
  "ex_same_id_after =
     \<lparr>blocks = [ex_same_id_mined],
      utxo_set = [(''g:0'', \<lparr>UTXO.tx_id = Some ''g'', UTXO.output_index = 0,
                            UTXO.amount = 60, owner_address = ex_alice,
                            UTXO.lock_script = None\<rparr>),
                  (''g:1'', \<lparr>UTXO.tx_id = Some ''g'', UTXO.output_index = 1,
                            UTXO.amount = 40, owner_address = ex_bob,
                            UTXO.lock_script = None\<rparr>)]\<rparr>"

definition ex_chain :: ledger where
  "ex_chain = \<lparr>blocks = [\<lparr>header = ex_header, transactions = []\<rparr>], utxo_set = []\<rparr>"

section \<open>Properties of the formatting\<close>

lemma digit_val_digit_char: "d < 10 \<Longrightarrow> digit_val (digit_char d) = d"
proof -
  assume "d < 10"
  then have "d \<in> {0,1,2,3,4,5,6,7,8,9}" by auto
  then show ?thesis by (auto simp: digit_val_def digit_char_def)
qed

lemma digits_val_snoc: "digits_val (s @ [c]) = 10 * digits_val s + digit_val c"
  by (simp add: digits_val_def)

lemma digits_val_str_nat: "digits_val (str_nat n) = n"
proof (induction n rule: str_nat.induct)
  case (1 n)
  show ?case
  proof (cases "n < 10")
    case True
    then show ?thesis
      by (subst str_nat.simps) (simp add: digits_val_def digit_val_digit_char)
  next
    case False
    then have "digits_val (str_nat n) = 10 * digits_val (str_nat (n div 10)) + digit_val (digit_char (n mod 10))"
      by (subst str_nat.simps) (simp add: digits_val_snoc)
    also have "\<dots> = 10 * (n div 10) + n mod 10"
      using 1 False by (simp add: digit_val_digit_char)
    finally show ?thesis by simp
  qed
qed

lemma str_nat_inj: "str_nat m = str_nat n \<Longrightarrow> m = n"
  by (metis digits_val_str_nat)

lemma str_int_of_nat: "str_int (int n) = str_nat n"
  by (simp add: str_int_def)

lemma str_int_nat_inj: "str_int (int m) = str_int (int n) \<Longrightarrow> m = n"
  by (simp add: str_int_of_nat str_nat_inj)

section \<open>Properties of the ledger store\<close>

lemma delete_absent: "k \<notin> fst ` set al \<Longrightarrow> AList.delete k al = al"
  by (induction al) auto

text \<open>
  Claim C8. \<open>remove_utxo\<close> raises nothing (it is a total function of the store and the
  key); on a key that is absent it returns the store as it was; and removing a key twice
  gives the store that removing it once gives.
\<close>

theorem remove_utxo_idempotent:
  "(k \<notin> fst ` set (utxo_set s) \<longrightarrow> remove_utxo s k = s)
   \<and> remove_utxo (remove_utxo s k) k = remove_utxo s k"
  by (simp add: remove_utxo_def delete_absent AList.delete_idem)

theorem remove_utxo_idempotent_witness:
  "''b:0'' \<notin> fst ` set (utxo_set ex_store)
   \<and> remove_utxo ex_store ''b:0'' = ex_store
   \<and> remove_utxo ex_store ''g:0'' = init_ledger
   \<and> remove_utxo (remove_utxo ex_store ''g:0'') ''g:0'' = remove_utxo ex_store ''g:0''"
proof -
  have absent: "''b:0'' \<notin> fst ` set (utxo_set ex_store)"
    by (simp add: ex_store_def)
  have once: "remove_utxo ex_store ''g:0'' = init_ledger"
    by (simp add: remove_utxo_def ex_store_def init_ledger_def)
  show ?thesis
    using absent once remove_utxo_idempotent [of "''b:0''" ex_store]
      remove_utxo_idempotent [of "''g:0''" ex_store]
    by simp
qed

text \<open>
  Claim C10. For every height outside \<open>[0, number of stored blocks)\<close>, negative heights
  included, \<open>get_block\<close> returns \<open>None\<close>: a negative height never addresses a block from
  the end of the chain.
\<close>

theorem get_block_out_of_range:
  "\<not> (0 \<le> height \<and> height < int (length (blocks s))) \<Longrightarrow> get_block s height = None"
  by (simp add: get_block_def)

theorem get_block_out_of_range_witness:
  "\<not> (0 \<le> (- 1 :: int) \<and> - 1 < int (length (blocks ex_chain)))
   \<and> get_block ex_chain (- 1) = None"
  using get_block_out_of_range [of "- 1" ex_chain]
  by (simp add: ex_chain_def)

section \<open>Properties of the proof-of-work search\<close>

lemma mine_loop_found:
  "prefix target (pow_digest sha hdr n) \<Longrightarrow>
   mine_loop sha target hdr n = Some (pow_digest sha hdr n, hdr\<lparr>nonce := n\<rparr>)"
  by (subst mine_loop.simps) simp

lemma mine_loop_step:
  "\<not> prefix target (pow_digest sha hdr n) \<Longrightarrow>
   mine_loop sha target hdr n = mine_loop sha target hdr (n + 1)"
  by (subst mine_loop.simps) simp

lemma mine_loop_least:
  "prefix target (pow_digest sha hdr (n + int j)) \<Longrightarrow>
   (\<forall>i<j. \<not> prefix target (pow_digest sha hdr (n + int i))) \<Longrightarrow>
   mine_loop sha target hdr n = Some (pow_digest sha hdr (n + int j), hdr\<lparr>nonce := n + int j\<rparr>)"
proof (induction j arbitrary: n)
  case 0
  then show ?case by (simp add: mine_loop_found)
next
  case (Suc j)
  have miss: "\<not> prefix target (pow_digest sha hdr n)"
    using Suc.prems(2) by (metis add.right_neutral of_nat_0 zero_less_Suc)
  have hit: "prefix target (pow_digest sha hdr (n + 1 + int j))"
    using Suc.prems(1) by (simp add: algebra_simps)
  have rest: "\<forall>i<j. \<not> prefix target (pow_digest sha hdr (n + 1 + int i))"
  proof (intro allI impI)
    fix i assume "i < j"
    then have "\<not> prefix target (pow_digest sha hdr (n + int (Suc i)))"
      using Suc.prems(2) by (meson Suc_less_eq)
    then show "\<not> prefix target (pow_digest sha hdr (n + 1 + int i))"
      by (simp add: algebra_simps)
  qed
  have "mine_loop sha target hdr (n + 1)
        = Some (pow_digest sha hdr (n + 1 + int j), hdr\<lparr>nonce := n + 1 + int j\<rparr>)"
    by (rule Suc.IH [OF hit rest])
  then show ?case
    using miss by (simp add: mine_loop_step algebra_simps)
qed

lemma mine_loop_hits:
  "mine_loop sha target hdr n = Some r \<Longrightarrow> \<exists>k\<ge>n. prefix target (pow_digest sha hdr k)"
proof (induction arbitrary: r rule: mine_loop.raw_induct[rotated 1, consumes 1])
  case (1 mine_loop' sha target hdr n r)
  show ?case
  proof (cases "prefix target (pow_digest sha hdr n)")
    case True
    then show ?thesis by auto
  next
    case False
    then have "mine_loop' sha target hdr (n + 1) = Some r" using 1(2) by simp
    then obtain k where "k \<ge> n + 1" "prefix target (pow_digest sha hdr k)"
      using 1(1) by blast
    then show ?thesis by (intro exI[of _ k]) auto
  qed
qed

lemma mine_loop_result:
  assumes "mine_loop sha target hdr 0 = Some (h, hdr')"
  shows "\<exists>n\<ge>0. h = pow_digest sha hdr n \<and> prefix target h \<and> hdr' = hdr\<lparr>nonce := n\<rparr>
          \<and> (\<forall>m. 0 \<le> m \<and> m < n \<longrightarrow> \<not> prefix target (pow_digest sha hdr m))"
proof -
  obtain k where k: "k \<ge> 0" "prefix target (pow_digest sha hdr k)"
    using mine_loop_hits [OF assms] by blast
  define P where "P j = prefix target (pow_digest sha hdr (int j))" for j
  have "P (nat k)" using k by (simp add: P_def)
  define j where "j = (LEAST j. P j)"
  have Pj: "P j" unfolding j_def using \<open>P (nat k)\<close> by (rule LeastI)
  have least: "\<not> P i" if "i < j" for i
    using that not_less_Least unfolding j_def by blast
  have "mine_loop sha target hdr 0
        = Some (pow_digest sha hdr (0 + int j), hdr\<lparr>nonce := 0 + int j\<rparr>)"
    by (rule mine_loop_least) (use Pj least in \<open>auto simp: P_def\<close>)
  with assms have h: "h = pow_digest sha hdr (int j)" and hdr': "hdr' = hdr\<lparr>nonce := int j\<rparr>"
    by auto
  have "\<not> prefix target (pow_digest sha hdr m)" if "0 \<le> m" "m < int j" for m
  proof -
    have "nat m < j" using that by linarith
    then have "\<not> P (nat m)" by (rule least)
    then show ?thesis using that by (simp add: P_def)
  qed
  then show ?thesis
    using h hdr' Pj by (intro exI[of _ "int j"]) (auto simp: P_def)
qed

lemma mine_loop_returns:
  assumes "0 \<le> k" and "prefix target (pow_digest sha hdr k)"
  shows "\<exists>r. mine_loop sha target hdr 0 = Some r"
proof -
  define P where "P j = prefix target (pow_digest sha hdr (int j))" for j
  have "P (nat k)" using assms by (simp add: P_def)
  define j where "j = (LEAST j. P j)"
  have Pj: "P j" unfolding j_def using \<open>P (nat k)\<close> by (rule LeastI)
  have least: "\<not> P i" if "i < j" for i
    using that not_less_Least unfolding j_def by blast
  have "mine_loop sha target hdr 0
        = Some (pow_digest sha hdr (0 + int j), hdr\<lparr>nonce := 0 + int j\<rparr>)"
    by (rule mine_loop_least) (use Pj least in \<open>auto simp: P_def\<close>)
  then show ?thesis by blast
qed

lemma toy_hexdigest:
  "hexdigest toy_sha b = (if CHR ''3'' \<in> set b then ''00ab'' else ''ffab'')"
  by (simp add: hexdigest_def toy_sha_def hex_byte_def hex_char_def)

lemma str_nat_digit: "n < 10 \<Longrightarrow> str_nat n = [digit_char n]"
  by (subst str_nat.simps) simp

lemma str_int_digits [simp]:
  "str_int 0 = ''0''" "str_int 1 = ''1''" "str_int 2 = ''2''" "str_int 3 = ''3''"
  by (simp_all add: str_int_def str_nat_digit digit_char_def)

lemma ex_header_mine_loop:
  assumes "prefix target ''00ab''" and "\<not> prefix target ''ffab''"
  shows "mine_loop toy_sha target ex_header 0 = Some (''00ab'', ex_header\<lparr>nonce := 3\<rparr>)"
proof -
  have hit: "prefix target (pow_digest toy_sha ex_header (0 + int 3))"
    using assms(1) by (simp add: pow_digest_def toy_hexdigest ex_header_def)
  have miss: "\<forall>i<3. \<not> prefix target (pow_digest toy_sha ex_header (0 + int i))"
  proof (intro allI impI)
    fix i :: nat assume "i < 3"
    then have "i = 0 \<or> i = 1 \<or> i = 2" by linarith
    then show "\<not> prefix target (pow_digest toy_sha ex_header (0 + int i))"
      using assms(2) by (auto simp: pow_digest_def toy_hexdigest ex_header_def)
  qed
  have "pow_digest toy_sha ex_header (0 + int 3) = ''00ab''"
    by (simp add: pow_digest_def toy_hexdigest ex_header_def)
  with mine_loop_least [OF hit miss] show ?thesis by simp
qed

text \<open>
  Claim C4. For a difficulty \<open>d \<ge> 1\<close> and any header, when \<open>mine\<close> returns, what it
  returns is the hex digest of the hash over \<open>prev_hash\<close>, \<open>merkle_root\<close>, the chosen
  nonce and \<open>timestamp\<close>, concatenated in that order; the digest starts with \<open>d\<close>
  characters \<open>0\<close>; the header comes back with the chosen nonce in its \<open>nonce\<close> field and
  is otherwise unchanged; and no smaller nonce from 0 on has a digest with that prefix.
  (Lemma \<open>mine_loop_returns\<close> is the other direction: the search returns as soon as some
  nonce qualifies.)
\<close>

theorem mine_returns_least_nonce:
  assumes "1 \<le> d" and "mine sha d hdr = Some (h, hdr')"
  shows "\<exists>n\<ge>0. h = hexdigest sha (prev_hash hdr @ merkle_root hdr @ str_int n
                                    @ str_int (timestamp hdr))
          \<and> prefix (replicate (nat d) CHR ''0'') h
          \<and> hdr' = hdr\<lparr>nonce := n\<rparr>
          \<and> (\<forall>m. 0 \<le> m \<and> m < n
                \<longrightarrow> \<not> prefix (replicate (nat d) CHR ''0'') (pow_digest sha hdr m))"
proof -
  have "max 1 d = d" using assms(1) by simp
  then have "mine_loop sha (replicate (nat d) CHR ''0'') hdr 0 = Some (h, hdr')"
    using assms(2) by (simp add: mine_def)
  from mine_loop_result [OF this] show ?thesis
    by (simp add: pow_digest_def)
qed

theorem mine_returns_least_nonce_witness:
  "(1::int) \<le> 2
   \<and> mine toy_sha 2 ex_header = Some (''00ab'', ex_header\<lparr>nonce := 3\<rparr>)
   \<and> (\<exists>n\<ge>0. ''00ab'' = hexdigest toy_sha (prev_hash ex_header @ merkle_root ex_header @ str_int n
                                    @ str_int (timestamp ex_header))
          \<and> prefix (replicate (nat 2) CHR ''0'') ''00ab''
          \<and> ex_header\<lparr>nonce := 3\<rparr> = ex_header\<lparr>nonce := n\<rparr>
          \<and> (\<forall>m. 0 \<le> m \<and> m < n
                \<longrightarrow> \<not> prefix (replicate (nat 2) CHR ''0'') (pow_digest toy_sha ex_header m)))"
proof -
  have two: "replicate 2 CHR ''0'' = ''00''"
    by (simp add: numeral_2_eq_2)
  have run: "mine toy_sha 2 ex_header = Some (''00ab'', ex_header\<lparr>nonce := 3\<rparr>)"
    by (simp add: mine_def two ex_header_mine_loop)
  show ?thesis
    using run mine_returns_least_nonce [of 2 toy_sha ex_header "''00ab''" "ex_header\<lparr>nonce := 3\<rparr>"]
    by simp
qed

text \<open>
  Claim C9. For every difficulty \<open>d \<le> 1\<close>, zero and the negative ones included, \<open>mine\<close>
  is the search of difficulty 1: the target is \<open>max(1, d)\<close> characters \<open>0\<close>. What it
  accepts starts with a \<open>0\<close>, and every nonce before the accepted one was refused for
  want of it, so a first digest without a leading \<open>0\<close> is not accepted.
\<close>

theorem difficulty_below_one:
  assumes "d \<le> 1"
  shows "mine sha d hdr = mine sha 1 hdr
         \<and> (\<forall>h hdr'. mine sha d hdr = Some (h, hdr') \<longrightarrow>
               prefix ''0'' h
               \<and> (\<forall>m. 0 \<le> m \<and> m < nonce hdr' \<longrightarrow> \<not> prefix ''0'' (pow_digest sha hdr m)))"
proof -
  have target: "replicate (nat (max 1 d)) CHR ''0'' = ''0''"
    using assms by (simp add: max_def)
  have same: "mine sha d hdr = mine sha 1 hdr"
    by (simp add: mine_def target)
  have "prefix ''0'' h \<and> (\<forall>m. 0 \<le> m \<and> m < nonce hdr' \<longrightarrow> \<not> prefix ''0'' (pow_digest sha hdr m))"
    if "mine sha d hdr = Some (h, hdr')" for h hdr'
  proof -
    have "mine_loop sha ''0'' hdr 0 = Some (h, hdr')"
      using that by (simp add: mine_def target)
    from mine_loop_result [OF this] show ?thesis by auto
  qed
  with same show ?thesis by blast
qed

theorem difficulty_below_one_witness:
  "(0::int) \<le> 1
   \<and> mine toy_sha 0 ex_header = mine toy_sha 1 ex_header
   \<and> mine toy_sha 0 ex_header = Some (''00ab'', ex_header\<lparr>nonce := 3\<rparr>)
   \<and> pow_digest toy_sha ex_header 0 = ''ffab''
   \<and> prefix ''0'' ''00ab''
   \<and> \<not> prefix ''0'' (pow_digest toy_sha ex_header 0)"
proof -
  have run: "mine toy_sha 0 ex_header = Some (''00ab'', ex_header\<lparr>nonce := 3\<rparr>)"
    by (simp add: mine_def ex_header_mine_loop)
  have first: "pow_digest toy_sha ex_header 0 = ''ffab''"
    by (simp add: pow_digest_def toy_hexdigest ex_header_def)
  show ?thesis
    using run first difficulty_below_one [of 0 toy_sha ex_header]
    by simp
qed

section \<open>Properties of signing and verification\<close>

lemma sign_loop_inputs [simp]: "inputs (sign_loop sha priv h idx ins tx) = inputs tx"
  by (induction ins arbitrary: idx tx) (simp_all add: add_signature_def)

lemma sign_loop_outputs [simp]: "outputs (sign_loop sha priv h idx ins tx) = outputs tx"
  by (induction ins arbitrary: idx tx) (simp_all add: add_signature_def)

lemma sign_loop_tx_id [simp]:
  "Transaction.tx_id (sign_loop sha priv h idx ins tx) = Transaction.tx_id tx"
  by (induction ins arbitrary: idx tx) (simp_all add: add_signature_def)

lemma sign_loop_signatures:
  "signatures (sign_loop sha priv h idx ins tx) i =
     (if idx \<le> i \<and> i < idx + int (length ins) then Some (sha (priv @ h)) else signatures tx i)"
  by (induction ins arbitrary: idx tx) (auto simp: add_signature_def)

lemma calculate_hash_cong:
  "inputs tx' = inputs tx \<Longrightarrow> outputs tx' = outputs tx \<Longrightarrow>
   Transaction_calculate_hash sha fmt tx' = Transaction_calculate_hash sha fmt tx"
  by (simp add: Transaction_calculate_hash_def)

lemma sign_transaction_hash:
  "Transaction_calculate_hash sha fmt (sign_transaction sha fmt priv tx)
   = Transaction_calculate_hash sha fmt tx"
  by (rule calculate_hash_cong) (simp_all add: sign_transaction_def)

lemma verify_loop_True_iff:
  "verify_loop sha h sigs key_lookup idx ins = Inr True \<longleftrightarrow>
   (\<forall>i<length ins. \<exists>s. key_lookup (ins ! i) = Inr (Some s)
                        \<and> sigs (idx + int i) = Some (sha (s @ h)))"
proof (induction ins arbitrary: idx)
  case Nil
  then show ?case by simp
next
  case (Cons inp rest)
  have shift: "(\<forall>i<length rest. \<exists>s. key_lookup (rest ! i) = Inr (Some s)
                   \<and> sigs (idx + 1 + int i) = Some (sha (s @ h)))
               \<longleftrightarrow> (\<forall>i<length rest. \<exists>s. key_lookup ((inp # rest) ! Suc i) = Inr (Some s)
                   \<and> sigs (idx + int (Suc i)) = Some (sha (s @ h)))"
    by (simp add: algebra_simps)
  have split: "(\<forall>i<length (inp # rest). Q i) \<longleftrightarrow> Q 0 \<and> (\<forall>i<length rest. Q (Suc i))" for Q
    by (auto simp: less_Suc_eq_0_disj)
  show ?case
    unfolding split
    by (auto simp: Cons.IH shift split: option.splits sum.splits)
qed

lemma verify_loop_error:
  "verify_loop sha h sigs key_lookup idx ins = Inl e \<Longrightarrow> \<exists>inp\<in>set ins. key_lookup inp = Inl e"
  by (induction ins arbitrary: idx) (auto split: option.splits sum.splits if_splits)

lemma sign_then_verify:
  assumes "\<forall>inp\<in>set (inputs tx). key_lookup inp = Inr (Some s)"
  shows "Transaction_verify sha fmt (sign_transaction sha fmt s tx) key_lookup = Inr True"
proof -
  let ?tx' = "sign_transaction sha fmt s tx"
  let ?h = "Transaction_calculate_hash sha fmt tx"
  have ins: "inputs ?tx' = inputs tx" by (simp add: sign_transaction_def)
  have sig: "signatures ?tx' (0 + int i) = Some (sha (s @ ?h))" if "i < length (inputs tx)" for i
    using that by (simp add: sign_transaction_def sign_loop_signatures)
  have "verify_loop sha ?h (signatures ?tx') key_lookup 0 (inputs tx) = Inr True"
    unfolding verify_loop_True_iff
  proof (intro allI impI)
    fix i assume i: "i < length (inputs tx)"
    then have "key_lookup (inputs tx ! i) = Inr (Some s)" using assms by simp
    with sig [OF i] show "\<exists>s'. key_lookup (inputs tx ! i) = Inr (Some s')
            \<and> signatures ?tx' (0 + int i) = Some (sha (s' @ ?h))"
      by blast
  qed
  then show ?thesis
    by (simp add: Transaction_verify_def sign_transaction_hash ins)
qed

text \<open>
  Claim C3. Signing then verifying: for every transaction \<open>tx\<close> (whatever signatures it
  held before) and every secret \<open>s\<close>, right after \<open>sign_transaction(s, tx)\<close> the call
  \<open>verify_transaction(tx, lookup)\<close> returns true whenever \<open>lookup\<close> returns \<open>s\<close> for
  every input of \<open>tx\<close>.
\<close>

theorem sign_verify_roundtrip:
  assumes "\<forall>inp\<in>set (inputs tx). key_lookup inp = Inr (Some s)"
  shows "verify_transaction sha fmt (sign_transaction sha fmt s tx) key_lookup = Inr True"
  by (simp add: verify_transaction_def sign_then_verify [OF assms])

theorem sign_verify_roundtrip_witness:
  "inputs ex_tx = [ex_input]
   \<and> ex_lookup ex_input = Inr (Some ''k'')
   \<and> verify_transaction toy_sha toy_fmt (sign_transaction toy_sha toy_fmt ''k'' ex_tx) ex_lookup
       = Inr True"
proof -
  have ins: "inputs ex_tx = [ex_input]" by (simp add: ex_tx_def)
  have look: "ex_lookup ex_input = Inr (Some ''k'')" by (simp add: ex_lookup_def)
  have all: "\<forall>inp\<in>set (inputs ex_tx). ex_lookup inp = Inr (Some ''k'')"
    by (simp add: ex_lookup_def)
  have "verify_transaction toy_sha toy_fmt (sign_transaction toy_sha toy_fmt ''k'' ex_tx) ex_lookup
        = Inr True"
    by (rule sign_verify_roundtrip [OF all])
  with ins look show ?thesis by blast
qed

text \<open>
  Claim C6 says that verification signals a double spend when two inputs reference the
  same UTXO key. It does not: \<open>Transaction.verify\<close> compares signatures only, and nothing
  in the source raises \<open>DoubleSpendException\<close>. The transaction below has two inputs with
  one reference key and passes verification once signed.
\<close>

theorem double_spend_passes_verification:
  "length (inputs ex_double_tx) = 2
   \<and> reference_key (inputs ex_double_tx ! 0) = reference_key (inputs ex_double_tx ! 1)
   \<and> verify_transaction toy_sha toy_fmt
        (sign_transaction toy_sha toy_fmt ''k'' ex_double_tx) ex_lookup = Inr True"
proof -
  have "\<forall>inp\<in>set (inputs ex_double_tx). ex_lookup inp = Inr (Some ''k'')"
    by (simp add: ex_lookup_def)
  then have "Transaction_verify toy_sha toy_fmt
        (sign_transaction toy_sha toy_fmt ''k'' ex_double_tx) ex_lookup = Inr True"
    by (rule sign_then_verify)
  then show ?thesis
    by (simp add: verify_transaction_def ex_double_tx_def)
qed

text \<open>
  Claim C6, as amended. Verification never signals the double-spend condition, and it
  returns true exactly when every input index holds a signature equal to the hash of
  the secret that the lookup yields for that input followed by the transaction hash,
  whether or not two inputs reference the same UTXO key.
\<close>

theorem verify_has_no_double_spend_check:
  "(\<forall>u. verify_transaction sha fmt tx key_lookup \<noteq> Inl (DoubleSpendException u))
   \<and> (verify_transaction sha fmt tx key_lookup = Inr True \<longleftrightarrow>
        (\<forall>i<length (inputs tx). \<exists>s. key_lookup (inputs tx ! i) = Inr (Some s)
            \<and> signatures tx (int i) = Some (sha (s @ Transaction_calculate_hash sha fmt tx))))"
proof -
  have no_ds: "verify_transaction sha fmt tx key_lookup \<noteq> Inl (DoubleSpendException u)" for u
    by (simp add: verify_transaction_def split: sum.splits)
  have "verify_transaction sha fmt tx key_lookup = Inr True
        \<longleftrightarrow> Transaction_verify sha fmt tx key_lookup = Inr True"
    by (simp add: verify_transaction_def split: sum.splits)
  also have "\<dots> \<longleftrightarrow> (\<forall>i<length (inputs tx). \<exists>s. key_lookup (inputs tx ! i) = Inr (Some s)
            \<and> signatures tx (0 + int i) = Some (sha (s @ Transaction_calculate_hash sha fmt tx)))"
    unfolding Transaction_verify_def by (rule verify_loop_True_iff)
  finally show ?thesis using no_ds by simp
qed

theorem verify_has_no_double_spend_check_witness:
  "reference_key (inputs (sign_transaction toy_sha toy_fmt ''k'' ex_double_tx) ! 0)
     = reference_key (inputs (sign_transaction toy_sha toy_fmt ''k'' ex_double_tx) ! 1)
   \<and> verify_transaction toy_sha toy_fmt
        (sign_transaction toy_sha toy_fmt ''k'' ex_double_tx) ex_lookup = Inr True
   \<and> verify_transaction toy_sha toy_fmt
        (sign_transaction toy_sha toy_fmt ''k'' ex_double_tx) ex_lookup
       \<noteq> Inl (DoubleSpendException None)"
proof -
  let ?tx = "sign_transaction toy_sha toy_fmt ''k'' ex_double_tx"
  have "inputs ?tx = inputs ex_double_tx"
    by (simp add: sign_transaction_def)
  then have ins: "inputs ?tx = [ex_input, ex_input]"
    by (simp add: ex_double_tx_def)
  have len: "length (inputs ex_double_tx) = 2"
    by (simp add: ex_double_tx_def)
  have sigs: "signatures ?tx (int i)
              = Some (toy_sha (''k'' @ Transaction_calculate_hash toy_sha toy_fmt ?tx))"
    if "i < 2" for i
    using that
    by (simp add: sign_transaction_hash)
       (simp add: sign_transaction_def sign_loop_signatures len)
  have rhs: "\<forall>i<length (inputs ?tx). \<exists>s. ex_lookup (inputs ?tx ! i) = Inr (Some s)
            \<and> signatures ?tx (int i)
               = Some (toy_sha (s @ Transaction_calculate_hash toy_sha toy_fmt ?tx))"
    using sigs by (simp add: ins ex_lookup_def)
  note spec = verify_has_no_double_spend_check [of toy_sha toy_fmt ?tx ex_lookup]
  have pass: "verify_transaction toy_sha toy_fmt ?tx ex_lookup = Inr True"
    using spec rhs by blast
  have nods: "verify_transaction toy_sha toy_fmt ?tx ex_lookup \<noteq> Inl (DoubleSpendException None)"
    using spec by blast
  show ?thesis using pass nods by (simp add: ins)
qed

section \<open>Properties of the Merkle root\<close>

lemma merkle_loop_single: "merkle_loop sha [h] = [h]"
  by (subst merkle_loop.simps) simp

lemma pad_level_duplicate_last: "pad_level hs = duplicate_last hs"
  by (simp add: pad_level_def duplicate_last_def odd_iff_mod_2_eq_one)

lemma length_hash_pairs: "length (hash_pairs sha hs) = length hs div 2"
  by (induction sha hs rule: hash_pairs.induct) auto

lemma even_length_duplicate_last: "even (length (duplicate_last hs))"
  by (simp add: duplicate_last_def)

text \<open>On a level of even length the indexed loop never reads past the end, and builds
  what pairing adjacent elements builds.\<close>

lemma new_level_hash_pairs:
  "even (length hs) \<Longrightarrow> new_level sha hs = hash_pairs sha hs"
proof (induction sha hs rule: hash_pairs.induct)
  case (1 sha l r rest)
  have ev: "even (length rest)" using "1.prems" by simp
  have n: "(length (l # r # rest) + 1) div 2 = Suc ((length rest + 1) div 2)"
    by simp
  have "new_level sha (l # r # rest)
        = hexdigest sha (l @ r)
          # map (\<lambda>j. hexdigest sha (rest ! (2 * j) @ rest ! (2 * j + 1)))
              [0 ..< (length rest + 1) div 2]"
    unfolding new_level_def n
    by (simp add: upt_conv_Cons map_Suc_upt [symmetric] del: upt_Suc)
  also have "\<dots> = hexdigest sha (l @ r) # new_level sha rest"
    by (simp add: new_level_def)
  finally show ?case using "1.IH" [OF ev] by simp
qed (simp_all add: new_level_def)

lemma next_level_eq:
  "new_level sha (pad_level hs) = hash_pairs sha (duplicate_last hs)"
  by (simp add: pad_level_duplicate_last new_level_hash_pairs even_length_duplicate_last)

lemma merkle_loop_spec:
  "hs \<noteq> [] \<Longrightarrow> merkle_loop sha hs = [spec_merkle_root sha hs]"
proof (induction sha hs rule: spec_merkle_root.induct)
  case (1 sha)
  then show ?case by simp
next
  case (2 sha h)
  then show ?case by (simp add: merkle_loop_single)
next
  case (3 sha a b level)
  let ?next = "hash_pairs sha (duplicate_last (a # b # level))"
  have "length ?next \<ge> 1"
    by (simp add: length_hash_pairs duplicate_last_def)
  then have ne: "?next \<noteq> []" by auto
  have "merkle_loop sha (a # b # level) = merkle_loop sha ?next"
    by (subst merkle_loop.simps) (simp add: next_level_eq)
  also have "\<dots> = [spec_merkle_root sha ?next]"
    by (rule "3.IH" [OF ne])
  finally show ?case by simp
qed

text \<open>
  Claim C2. The Merkle root that a block computes is the function of its ordered
  transaction list that the specification describes: the hash of the empty byte string
  for no transactions; otherwise, over the list of transaction hashes, repeatedly
  duplicate the last element of a level of odd length and replace adjacent pairs by the
  hash of left followed by right (no separator), until one element remains.
\<close>

theorem merkle_root_spec:
  "Block_calculate_merkle_root sha fmt block
   = spec_merkle_root sha (map (Transaction_calculate_hash sha fmt) (transactions block))"
  by (cases "transactions block = []")
     (simp_all add: Block_calculate_merkle_root_def merkle_loop_spec)

lemma str_nat_tens: "10 \<le> n \<Longrightarrow> str_nat n = str_nat (n div 10) @ [digit_char (n mod 10)]"
  by (subst str_nat.simps) simp

lemma toy_fmt_samples [simp]:
  "toy_fmt 60 = ''60''" "toy_fmt 40 = ''40''" "toy_fmt 100 = ''100''"
  by (simp_all add: toy_fmt_def str_int_def str_nat_tens str_nat_digit digit_char_def)

lemma ex_tx_hash: "Transaction_calculate_hash toy_sha toy_fmt ex_tx = ''ffab''"
  by (simp add: Transaction_calculate_hash_def toy_hexdigest ex_tx_def ex_input_def
      ex_outputs_def ex_alice_def ex_bob_def)

lemma ex_double_tx_hash: "Transaction_calculate_hash toy_sha toy_fmt ex_double_tx = ''ffab''"
  by (simp add: Transaction_calculate_hash_def toy_hexdigest ex_double_tx_def ex_input_def
      ex_outputs_def ex_alice_def ex_bob_def)

theorem merkle_root_spec_witness:
  "Block_calculate_merkle_root toy_sha toy_fmt
      \<lparr>header = ex_header, transactions = [ex_tx, ex_double_tx, ex_tx]\<rparr>
     = spec_merkle_root toy_sha [''ffab'', ''ffab'', ''ffab'']
   \<and> spec_merkle_root toy_sha [''ffab'', ''ffab'', ''ffab'']
     = hexdigest toy_sha (hexdigest toy_sha (''ffab'' @ ''ffab'') @ hexdigest toy_sha (''ffab'' @ ''ffab''))
   \<and> Block_calculate_merkle_root toy_sha toy_fmt \<lparr>header = ex_header, transactions = []\<rparr>
     = hexdigest toy_sha []"
proof -
  have three: "Block_calculate_merkle_root toy_sha toy_fmt
      \<lparr>header = ex_header, transactions = [ex_tx, ex_double_tx, ex_tx]\<rparr>
     = spec_merkle_root toy_sha [''ffab'', ''ffab'', ''ffab'']"
    using merkle_root_spec [of toy_sha toy_fmt
        "\<lparr>header = ex_header, transactions = [ex_tx, ex_double_tx, ex_tx]\<rparr>"]
    by (simp add: ex_tx_hash ex_double_tx_hash)
  have none: "Block_calculate_merkle_root toy_sha toy_fmt \<lparr>header = ex_header, transactions = []\<rparr>
     = hexdigest toy_sha []"
    using merkle_root_spec [of toy_sha toy_fmt "\<lparr>header = ex_header, transactions = []\<rparr>"]
    by simp
  have run: "spec_merkle_root toy_sha [''ffab'', ''ffab'', ''ffab'']
     = hexdigest toy_sha (hexdigest toy_sha (''ffab'' @ ''ffab'') @ hexdigest toy_sha (''ffab'' @ ''ffab''))"
    by (simp add: duplicate_last_def)
  show ?thesis using three none run by blast
qed

section \<open>Properties of mining a block\<close>

lemma map_of_remove_utxo:
  "map_of (utxo_set (remove_utxo s k)) = map_of (utxo_set s) |` (- {k})"
proof (cases "k \<in> fst ` set (utxo_set s)")
  case True
  then show ?thesis
    by (simp add: remove_utxo_def AList.delete_conv' restrict_complement_singleton_eq)
next
  case False
  then have "map_of (utxo_set s) k = None"
    by (simp add: map_of_eq_None_iff)
  then have "(map_of (utxo_set s))(k := None) = map_of (utxo_set s)"
    by (simp add: fun_upd_idem)
  with False show ?thesis
    by (simp add: remove_utxo_def restrict_complement_singleton_eq)
qed

lemma blocks_remove_utxo [simp]: "blocks (remove_utxo s k) = blocks s"
  by (simp add: remove_utxo_def)

lemma blocks_add_utxo [simp]: "blocks (add_utxo s u) = blocks s"
  by (simp add: add_utxo_def)

lemma map_of_add_utxo:
  "map_of (utxo_set (add_utxo s u)) = (map_of (utxo_set s))(utxo_key u \<mapsto> u)"
  by (simp add: add_utxo_def AList.update_conv')

lemma map_of_remove_loop:
  "map_of (utxo_set (foldl (\<lambda>s x. remove_utxo s (f x)) s xs))
   = map_of (utxo_set s) |` (- f ` set xs)"
proof (induction xs arbitrary: s)
  case Nil
  then show ?case by simp
next
  case (Cons x xs)
  have sets: "- {f x} \<inter> - f ` set xs = - f ` set (x # xs)"
    by auto
  have "map_of (utxo_set (foldl (\<lambda>s x. remove_utxo s (f x)) s (x # xs)))
        = map_of (utxo_set (remove_utxo s (f x))) |` (- f ` set xs)"
    by (simp add: Cons.IH)
  also have "\<dots> = (map_of (utxo_set s) |` (- {f x})) |` (- f ` set xs)"
    by (simp only: map_of_remove_utxo)
  also have "\<dots> = map_of (utxo_set s) |` (- f ` set (x # xs))"
    by (simp only: restrict_restrict sets)
  finally show ?case .
qed

lemma map_of_spend_inputs:
  "map_of (utxo_set (spend_inputs s tx)) = map_of (utxo_set s) |` (- spent_keys tx)"
proof -
  have "spend_inputs s tx = foldl (\<lambda>s inp. remove_utxo s (reference_key inp)) s (inputs tx)"
    by (simp add: spend_inputs_def reference_key_def)
  then show ?thesis
    by (simp add: spent_keys_def map_of_remove_loop)
qed

lemma blocks_spend_inputs [simp]: "blocks (spend_inputs s tx) = blocks s"
proof -
  have "blocks (foldl (\<lambda>s inp. remove_utxo s (f inp)) s ins) = blocks s" for f :: "TxIn \<Rightarrow> string" and ins
    by (induction ins arbitrary: s) simp_all
  then show ?thesis by (simp add: spend_inputs_def)
qed

lemma created_key_inj: "created_key tx i = created_key tx j \<Longrightarrow> i = j"
  by (simp add: created_key_def str_int_nat_inj)

lemma utxo_key_created: "utxo_key (created_utxo tx i) = created_key tx i"
  by (simp add: utxo_key_def created_utxo_def created_key_def)

lemma distinct_created_keys: "distinct (map fst (created_utxos tx))"
  by (auto simp: created_utxos_def distinct_map comp_def inj_on_def dest: created_key_inj)

lemma length_created_utxos: "length (created_utxos tx) = length (outputs tx)"
  by (simp add: created_utxos_def)

lemma map_of_add_loop:
  "map_of (utxo_set (foldl (\<lambda>s i. add_utxo s (created_utxo tx i)) s is))
   = map_of (utxo_set s) ++ map_of (rev (map (\<lambda>i. (created_key tx i, created_utxo tx i)) is))"
proof (induction "is" arbitrary: s)
  case Nil
  then show ?case by simp
next
  case (Cons i "is")
  let ?kv = "\<lambda>i. (created_key tx i, created_utxo tx i)"
  have "map_of (utxo_set (foldl (\<lambda>s i. add_utxo s (created_utxo tx i)) s (i # is)))
        = (map_of (utxo_set s))(created_key tx i \<mapsto> created_utxo tx i)
          ++ map_of (rev (map ?kv is))"
    by (simp only: foldl_Cons Cons.IH map_of_add_utxo utxo_key_created)
  also have "\<dots> = (map_of (utxo_set s) ++ map_of [?kv i]) ++ map_of (rev (map ?kv is))"
    by simp
  also have "\<dots> = map_of (utxo_set s) ++ map_of (rev (map ?kv is) @ [?kv i])"
    by (simp only: map_of_append map_add_assoc)
  finally show ?case by simp
qed

lemma add_outputs_indexed:
  "add_outputs s tx = foldl (\<lambda>s i. add_utxo s (created_utxo tx i)) s [0 ..< length (outputs tx)]"
proof -
  have "foldl (\<lambda>s (idx, out). g s idx out) s (enumerate n outs)
        = foldl (\<lambda>s i. g s i (outs ! (i - n))) s [n ..< n + length outs]"
    for g :: "ledger \<Rightarrow> nat \<Rightarrow> TxOut \<Rightarrow> ledger" and n outs
  proof (induction outs arbitrary: s n)
    case Nil
    then show ?case by simp
  next
    case (Cons out outs)
    have "foldl (\<lambda>s i. g s i ((out # outs) ! (i - n))) s' [Suc n ..< Suc n + length outs]
          = foldl (\<lambda>s i. g s i (outs ! (i - Suc n))) s' [Suc n ..< Suc n + length outs]" for s'
    proof (rule foldl_cong)
      fix a x assume "x \<in> set [Suc n ..< Suc n + length outs]"
      then have "x - n = Suc (x - Suc n)" by (simp del: upt_Suc) linarith
      then show "g a x ((out # outs) ! (x - n)) = g a x (outs ! (x - Suc n))" by simp
    qed simp_all
    then show ?case
      by (simp add: Cons.IH upt_conv_Cons del: upt_Suc)
  qed
  from this [of _ 0 "outputs tx"] show ?thesis
    by (simp add: add_outputs_def created_utxo_def)
qed

lemma map_of_rev_distinct:
  assumes "distinct (map fst xs)"
  shows "map_of (rev xs) = map_of xs"
proof -
  have "distinct (map fst (rev xs))" using assms by (simp only: rev_map [symmetric] distinct_rev)
  then show ?thesis using assms map_of_inject_set [of "rev xs" xs] by simp
qed

lemma map_of_add_outputs:
  "map_of (utxo_set (add_outputs s tx)) = map_of (utxo_set s) ++ map_of (created_utxos tx)"
proof -
  have "map_of (rev (created_utxos tx)) = map_of (created_utxos tx)"
    by (rule map_of_rev_distinct) (rule distinct_created_keys)
  then show ?thesis
    by (simp add: add_outputs_indexed map_of_add_loop created_utxos_def)
qed

lemma blocks_add_outputs [simp]: "blocks (add_outputs s tx) = blocks s"
proof -
  have "blocks (foldl (\<lambda>s i. add_utxo s (created_utxo tx i)) s is) = blocks s" for "is"
    by (induction "is" arbitrary: s) simp_all
  then show ?thesis by (simp add: add_outputs_indexed)
qed

lemma map_of_update_utxo_set:
  "map_of (utxo_set (update_utxo_set s txs)) = foldl utxo_effect (map_of (utxo_set s)) txs"
proof -
  have "map_of (utxo_set (foldl (\<lambda>s tx. add_outputs (spend_inputs s tx) tx) s txs))
        = foldl utxo_effect (map_of (utxo_set s)) txs"
    by (induction txs arbitrary: s)
       (simp_all add: map_of_add_outputs map_of_spend_inputs utxo_effect_def)
  then show ?thesis by (simp add: update_utxo_set_def)
qed

lemma blocks_update_utxo_set [simp]: "blocks (update_utxo_set s txs) = blocks s"
proof -
  have "blocks (foldl (\<lambda>s tx. add_outputs (spend_inputs s tx) tx) s txs) = blocks s"
    by (induction txs arbitrary: s) simp_all
  then show ?thesis by (simp add: update_utxo_set_def)
qed

lemma mine_keeps_header:
  assumes "mine sha d hdr = Some (h, hdr')"
  shows "\<exists>n. hdr' = hdr\<lparr>nonce := n\<rparr>"
proof -
  have "mine_loop sha (replicate (nat (max 1 d)) CHR ''0'') hdr 0 = Some (h, hdr')"
    using assms by (simp add: mine_def)
  from mine_loop_result [OF this] show ?thesis by blast
qed

text \<open>What a call of \<open>mine_block\<close> that returns has done.\<close>

lemma mine_block_returned:
  assumes "mine_block sha fmt d now s txs validator = Some (blk, s')"
  shows "prev_hash (header blk)
         = (if blocks s = [] then replicate 64 CHR ''0''
            else BlockHeader_calculate_hash sha (header (last (blocks s))))"
    and "transactions blk = txs"
    and "s' = update_utxo_set (add_block s blk) txs"
proof -
  let ?ph = "case get_latest_block s of
               Some prev \<Rightarrow> BlockHeader_calculate_hash sha (header prev)
             | None \<Rightarrow> replicate 64 CHR ''0''"
  let ?h0 = "\<lparr>version = 1, prev_hash = ?ph, merkle_root = [], timestamp = now,
              nonce = 0, difficulty = d, validator_id = Some validator\<rparr>"
  let ?b0 = "\<lparr>header = ?h0, transactions = txs\<rparr>"
  let ?h1 = "?h0\<lparr>merkle_root := Block_calculate_merkle_root sha fmt ?b0\<rparr>"
  obtain h hdr2 where m: "mine sha d ?h1 = Some (h, hdr2)"
    and blk: "blk = \<lparr>header = hdr2, transactions = txs\<rparr>"
    and s': "s' = update_utxo_set (add_block s blk) txs"
    using assms by (auto simp: mine_block_def Let_def split: option.splits)
  obtain n where hdr2: "hdr2 = ?h1\<lparr>nonce := n\<rparr>"
    using mine_keeps_header [OF m] by blast
  have ph: "?ph = (if blocks s = [] then replicate 64 CHR ''0''
                   else BlockHeader_calculate_hash sha (header (last (blocks s))))"
    by (simp add: get_latest_block_def)
  show "prev_hash (header blk)
         = (if blocks s = [] then replicate 64 CHR ''0''
            else BlockHeader_calculate_hash sha (header (last (blocks s))))"
    unfolding blk hdr2 using ph by simp
  show "transactions blk = txs" by (simp add: blk)
  show "s' = update_utxo_set (add_block s blk) txs" by (rule s')
qed

lemma mine_block_blocks:
  assumes "mine_block sha fmt d now s txs validator = Some (blk, s')"
  shows "blocks s' = blocks s @ [blk]"
  using mine_block_returned(3) [OF assms] by (simp add: add_block_def)

lemma mine_block_utxo_set:
  assumes "mine_block sha fmt d now s txs validator = Some (blk, s')"
  shows "map_of (utxo_set s') = foldl utxo_effect (map_of (utxo_set s)) txs"
  using mine_block_returned(3) [OF assms] by (simp add: map_of_update_utxo_set add_block_def)

lemma hex_char_zero: "n < 16 \<Longrightarrow> hex_char n = CHR ''0'' \<Longrightarrow> n = 0"
proof -
  assume n: "n < 16" and z: "hex_char n = CHR ''0''"
  have d: "distinct ''0123456789abcdef''" by simp
  have "''0123456789abcdef'' ! n = ''0123456789abcdef'' ! 0"
    using z by (simp add: hex_char_def)
  then show ?thesis
    using nth_eq_iff_index_eq [OF d, of n 0] n by simp
qed

lemma hex_byte_zero: "hex_byte c = ''00'' \<Longrightarrow> c = CHR 0x00"
proof -
  assume h: "hex_byte c = ''00''"
  have lt: "(of_char c :: nat) < 256" by simp
  then have hi: "(of_char c :: nat) div 16 < 16" by arith
  have lo: "(of_char c :: nat) mod 16 < 16" by arith
  have "(of_char c :: nat) div 16 = 0"
    using h by (intro hex_char_zero [OF hi]) (simp add: hex_byte_def)
  moreover have "(of_char c :: nat) mod 16 = 0"
    using h by (intro hex_char_zero [OF lo]) (simp add: hex_byte_def)
  ultimately have "(of_char c :: nat) = 0"
    by (metis div_mult_mod_eq mult_zero_left add.right_neutral)
  then have "(of_char c :: nat) = of_char (CHR 0x00)" by simp
  then show ?thesis by (simp only: of_char_eq_iff)
qed

lemma concat_hex_zero:
  "concat (map hex_byte bs) = replicate (2 * n) CHR ''0'' \<Longrightarrow> bs = replicate n (CHR 0x00)"
proof (induction bs arbitrary: n)
  case Nil
  then show ?case by simp
next
  case (Cons b bs)
  have len: "length (hex_byte b) = 2" by (simp add: hex_byte_def)
  obtain m where n: "n = Suc m"
    using Cons.prems by (cases n) (simp_all add: hex_byte_def)
  have split: "replicate (2 * n) CHR ''0'' = ''00'' @ replicate (2 * m) CHR ''0''"
    by (simp add: n)
  have "hex_byte b @ concat (map hex_byte bs) = ''00'' @ replicate (2 * m) CHR ''0''"
    using Cons.prems split by simp
  then have "hex_byte b = ''00''" and rest: "concat (map hex_byte bs) = replicate (2 * m) CHR ''0''"
    using len by (simp_all add: hex_byte_def)
  then show ?case
    using Cons.IH [OF rest] n by (simp add: hex_byte_zero)
qed

text \<open>A hash function with no all-zero digest has no hex digest of 64 zeros.\<close>

lemma hexdigest_not_placeholder:
  assumes "\<forall>b. sha b \<noteq> replicate 32 (CHR 0x00)"
  shows "hexdigest sha b \<noteq> replicate 64 CHR ''0''"
proof
  assume "hexdigest sha b = replicate 64 CHR ''0''"
  then have "concat (map hex_byte (sha b)) = replicate (2 * 32) CHR ''0''"
    by (simp add: hexdigest_def)
  then have "sha b = replicate 32 (CHR 0x00)" by (rule concat_hex_zero)
  with assms show False by blast
qed

lemma mine_returns_iff:
  "(\<exists>r. mine sha d hdr = Some r)
   \<longleftrightarrow> (\<exists>n\<ge>0. prefix (replicate (nat (max 1 d)) CHR ''0'') (pow_digest sha hdr n))"
proof
  assume "\<exists>r. mine sha d hdr = Some r"
  then obtain r where "mine_loop sha (replicate (nat (max 1 d)) CHR ''0'') hdr 0 = Some r"
    by (auto simp: mine_def)
  from mine_loop_hits [OF this]
  show "\<exists>n\<ge>0. prefix (replicate (nat (max 1 d)) CHR ''0'') (pow_digest sha hdr n)" .
next
  assume "\<exists>n\<ge>0. prefix (replicate (nat (max 1 d)) CHR ''0'') (pow_digest sha hdr n)"
  then obtain n where "0 \<le> n" "prefix (replicate (nat (max 1 d)) CHR ''0'') (pow_digest sha hdr n)"
    by blast
  from mine_loop_returns [OF this] show "\<exists>r. mine sha d hdr = Some r"
    by (simp add: mine_def)
qed

lemma mine_block_unfold:
  "mine_block sha fmt d now s txs validator =
     (case mine sha d (candidate_header sha fmt d now s txs validator) of
        None \<Rightarrow> None
      | Some (block_hash, header2) \<Rightarrow>
          Some (\<lparr>header = header2, transactions = txs\<rparr>,
                update_utxo_set (add_block s \<lparr>header = header2, transactions = txs\<rparr>) txs))"
  by (simp add: mine_block_def candidate_header_def Let_def split: option.splits prod.splits)

text \<open>\<open>mine_block\<close> returns exactly when some nonce qualifies for the header it built.\<close>

lemma mine_block_returns_iff:
  "(\<exists>blk s'. mine_block sha fmt d now s txs validator = Some (blk, s'))
   \<longleftrightarrow> (\<exists>n\<ge>0. prefix (replicate (nat (max 1 d)) CHR ''0'')
                 (pow_digest sha (candidate_header sha fmt d now s txs validator) n))"
proof -
  have "(\<exists>blk s'. mine_block sha fmt d now s txs validator = Some (blk, s'))
        \<longleftrightarrow> (\<exists>r. mine sha d (candidate_header sha fmt d now s txs validator) = Some r)"
    by (auto simp: mine_block_unfold split: option.splits)
  then show ?thesis by (simp only: mine_returns_iff)
qed

text \<open>
  Claim C7. Chain linkage. The header that \<open>mine_block\<close> builds, before the search and
  whether or not the search ends, has as \<open>prev_hash\<close> the hash of the header of the
  store's latest block when the store holds a block, and the placeholder of 64
  characters \<open>0\<close> when it holds none. The call returns exactly when some nonce from 0
  on qualifies for that header; what it returns keeps that \<open>prev_hash\<close>, and the block
  is appended to the store, so the next block mined on that store carries the hash of
  this block's header as its \<open>prev_hash\<close>. The hash of a header is a hex digest: for a
  hash function with no all-zero digest it is never the placeholder, so the
  placeholder is the \<open>prev_hash\<close> only when the store held no block, and the
  \<open>prev_hash\<close> of a second block is not the placeholder.
\<close>

theorem mine_block_chain_linkage:
  "prev_hash (candidate_header sha fmt d now s txs validator)
     = (if blocks s = [] then replicate 64 CHR ''0''
        else BlockHeader_calculate_hash sha (header (last (blocks s))))
   \<and> ((\<exists>blk s'. mine_block sha fmt d now s txs validator = Some (blk, s')) \<longleftrightarrow>
      (\<exists>n\<ge>0. prefix (replicate (nat (max 1 d)) CHR ''0'')
                (pow_digest sha (candidate_header sha fmt d now s txs validator) n)))
   \<and> (\<forall>blk s'. mine_block sha fmt d now s txs validator = Some (blk, s') \<longrightarrow>
         prev_hash (header blk)
           = (if blocks s = [] then replicate 64 CHR ''0''
              else BlockHeader_calculate_hash sha (header (last (blocks s))))
         \<and> blocks s' = blocks s @ [blk]
         \<and> (\<forall>d2 now2 txs2 validator2 blk2 s2.
               mine_block sha fmt d2 now2 s' txs2 validator2 = Some (blk2, s2)
               \<longrightarrow> prev_hash (header blk2) = BlockHeader_calculate_hash sha (header blk))
         \<and> ((\<forall>b. sha b \<noteq> replicate 32 (CHR 0x00)) \<longrightarrow>
               (prev_hash (header blk) = replicate 64 CHR ''0'' \<longleftrightarrow> blocks s = [])
               \<and> (\<forall>d2 now2 txs2 validator2 blk2 s2.
                     mine_block sha fmt d2 now2 s' txs2 validator2 = Some (blk2, s2)
                     \<longrightarrow> prev_hash (header blk2) \<noteq> replicate 64 CHR ''0'')))"
proof -
  have built: "prev_hash (candidate_header sha fmt d now s txs validator)
     = (if blocks s = [] then replicate 64 CHR ''0''
        else BlockHeader_calculate_hash sha (header (last (blocks s))))"
    by (simp add: candidate_header_def Let_def get_latest_block_def)
  have returns: "(\<exists>blk s'. mine_block sha fmt d now s txs validator = Some (blk, s')) \<longleftrightarrow>
      (\<exists>n\<ge>0. prefix (replicate (nat (max 1 d)) CHR ''0'')
                (pow_digest sha (candidate_header sha fmt d now s txs validator) n))"
    by (rule mine_block_returns_iff)
  have linked: "prev_hash (header blk)
           = (if blocks s = [] then replicate 64 CHR ''0''
              else BlockHeader_calculate_hash sha (header (last (blocks s))))
         \<and> blocks s' = blocks s @ [blk]
         \<and> (\<forall>d2 now2 txs2 validator2 blk2 s2.
               mine_block sha fmt d2 now2 s' txs2 validator2 = Some (blk2, s2)
               \<longrightarrow> prev_hash (header blk2) = BlockHeader_calculate_hash sha (header blk))
         \<and> ((\<forall>b. sha b \<noteq> replicate 32 (CHR 0x00)) \<longrightarrow>
               (prev_hash (header blk) = replicate 64 CHR ''0'' \<longleftrightarrow> blocks s = [])
               \<and> (\<forall>d2 now2 txs2 validator2 blk2 s2.
                     mine_block sha fmt d2 now2 s' txs2 validator2 = Some (blk2, s2)
                     \<longrightarrow> prev_hash (header blk2) \<noteq> replicate 64 CHR ''0''))"
    if run: "mine_block sha fmt d now s txs validator = Some (blk, s')" for blk s'
  proof -
    have prev: "prev_hash (header blk)
           = (if blocks s = [] then replicate 64 CHR ''0''
              else BlockHeader_calculate_hash sha (header (last (blocks s))))"
      by (rule mine_block_returned(1) [OF run])
    have blocks: "blocks s' = blocks s @ [blk]"
      by (rule mine_block_blocks [OF run])
    have next_block: "prev_hash (header blk2) = BlockHeader_calculate_hash sha (header blk)"
      if "mine_block sha fmt d2 now2 s' txs2 validator2 = Some (blk2, s2)"
      for d2 now2 txs2 validator2 blk2 s2
      using mine_block_returned(1) [OF that] by (simp add: blocks)
    have only: "(prev_hash (header blk) = replicate 64 CHR ''0'' \<longleftrightarrow> blocks s = [])
               \<and> (\<forall>d2 now2 txs2 validator2 blk2 s2.
                     mine_block sha fmt d2 now2 s' txs2 validator2 = Some (blk2, s2)
                     \<longrightarrow> prev_hash (header blk2) \<noteq> replicate 64 CHR ''0'')"
      if nz: "\<forall>b. sha b \<noteq> replicate 32 (CHR 0x00)"
    proof -
      have digest: "BlockHeader_calculate_hash sha h \<noteq> replicate 64 CHR ''0''" for h
        unfolding BlockHeader_calculate_hash_def by (rule hexdigest_not_placeholder [OF nz])
      have "prev_hash (header blk) = replicate 64 CHR ''0'' \<longleftrightarrow> blocks s = []"
        using prev digest by simp
      moreover have "prev_hash (header blk2) \<noteq> replicate 64 CHR ''0''"
        if "mine_block sha fmt d2 now2 s' txs2 validator2 = Some (blk2, s2)"
        for d2 now2 txs2 validator2 blk2 s2
        using next_block [OF that] digest by simp
      ultimately show ?thesis by blast
    qed
    show ?thesis
      using prev blocks next_block only by blast
  qed
  show ?thesis
    using built returns linked by blast
qed

text \<open>
  Claim C1, as amended. A call of \<open>mine_block\<close> that returns has applied to the UTXO set,
  for every transaction in list order, \<open>utxo_effect\<close>: the keys its inputs reference are
  removed, then one UTXO per output is added under the key made of the transaction's
  \<open>tx_id\<close> and the output's position, carrying the output's amount and destination
  address. For a block of one transaction this gives: each output's key holds that
  UTXO (the keys of different positions differ, lemma \<open>distinct_created_keys\<close>), each
  spent key is absent unless it is one of the new keys, and the keys of the store are
  the old ones less the spent ones plus the new ones. Spending a UTXO of 100 into
  outputs of 60 and 40 is the sample run that follows the theorem.
\<close>

theorem mine_block_utxo_effects:
  assumes "mine_block sha fmt d now s txs validator = Some (blk, s')"
  shows "map_of (utxo_set s') = foldl utxo_effect (map_of (utxo_set s)) txs
         \<and> (\<forall>tx i. txs = [tx] \<and> i < length (outputs tx)
               \<longrightarrow> map_of (utxo_set s') (created_key tx i) = Some (created_utxo tx i))
         \<and> (\<forall>tx k. txs = [tx] \<and> k \<in> spent_keys tx \<and> k \<notin> fst ` set (created_utxos tx)
               \<longrightarrow> map_of (utxo_set s') k = None)
         \<and> (\<forall>tx. txs = [tx]
               \<longrightarrow> dom (map_of (utxo_set s'))
                   = (dom (map_of (utxo_set s)) - spent_keys tx) \<union> fst ` set (created_utxos tx))"
proof -
  have all: "map_of (utxo_set s') = foldl utxo_effect (map_of (utxo_set s)) txs"
    by (rule mine_block_utxo_set [OF assms])
  have one: "map_of (utxo_set s') = utxo_effect (map_of (utxo_set s)) tx" if "txs = [tx]" for tx
    using all that by simp
  have created: "map_of (utxo_set s') (created_key tx i) = Some (created_utxo tx i)"
    if "txs = [tx]" "i < length (outputs tx)" for tx i
  proof -
    have "(created_key tx i, created_utxo tx i) \<in> set (created_utxos tx)"
      using that(2) by (simp add: created_utxos_def)
    then have "map_of (created_utxos tx) (created_key tx i) = Some (created_utxo tx i)"
      using distinct_created_keys by (simp add: map_of_eq_Some_iff)
    then show ?thesis
      by (simp add: one [OF that(1)] utxo_effect_def)
  qed
  have spent: "map_of (utxo_set s') k = None"
    if "txs = [tx]" "k \<in> spent_keys tx" "k \<notin> fst ` set (created_utxos tx)" for tx k
  proof -
    have "map_of (created_utxos tx) k = None"
      using that(3) by (simp add: map_of_eq_None_iff)
    then show ?thesis
      using that(2) by (simp add: one [OF that(1)] utxo_effect_def map_add_def)
  qed
  have doms: "dom (map_of (utxo_set s'))
              = (dom (map_of (utxo_set s)) - spent_keys tx) \<union> fst ` set (created_utxos tx)"
    if "txs = [tx]" for tx
    by (auto simp: one [OF that] utxo_effect_def dom_map_of_conv_image_fst)
  show ?thesis
    using all created spent doms by blast
qed

lemma toy_mine:
  assumes "CHR ''3'' \<notin> set (prev_hash hdr)" and "CHR ''3'' \<notin> set (merkle_root hdr)"
    and "timestamp hdr = 0" and "d \<le> 2"
  shows "mine toy_sha d hdr = Some (''00ab'', hdr\<lparr>nonce := 3\<rparr>)"
proof -
  let ?target = "replicate (nat (max 1 d)) CHR ''0''"
  define n where "n = nat (max 1 d)"
  have "n = 1 \<or> n = 2" using assms(4) by (auto simp: n_def max_def)
  then have "replicate n CHR ''0'' = ''0'' \<or> replicate n CHR ''0'' = ''00''"
    by (auto simp: numeral_2_eq_2)
  then have t: "?target = ''0'' \<or> ?target = ''00''"
    by (simp only: n_def)
  have hit: "prefix ?target (pow_digest toy_sha hdr (0 + int 3))"
    using t assms(1-3) by (auto simp: pow_digest_def toy_hexdigest)
  have miss: "\<forall>i<3. \<not> prefix ?target (pow_digest toy_sha hdr (0 + int i))"
  proof (intro allI impI)
    fix i :: nat assume "i < 3"
    then have "i = 0 \<or> i = 1 \<or> i = 2" by linarith
    then show "\<not> prefix ?target (pow_digest toy_sha hdr (0 + int i))"
      using t assms(1-3) by (auto simp: pow_digest_def toy_hexdigest)
  qed
  have "pow_digest toy_sha hdr (0 + int 3) = ''00ab''"
    using assms(1-3) by (simp add: pow_digest_def toy_hexdigest)
  with mine_loop_least [OF hit miss] show ?thesis by (simp add: mine_def)
qed

lemma ex_genesis_mined:
  "mine_block toy_sha toy_fmt 2 0 init_ledger [] ''miner''
   = Some (ex_genesis, \<lparr>blocks = [ex_genesis], utxo_set = []\<rparr>)"
  by (simp add: mine_block_def Let_def get_latest_block_def init_ledger_def
      Block_calculate_merkle_root_def toy_hexdigest toy_mine add_block_def
      update_utxo_set_def ex_genesis_def)

lemma ex_genesis_hash: "BlockHeader_calculate_hash toy_sha (header ex_genesis) = ''00ab''"
  by (simp add: BlockHeader_calculate_hash_def toy_hexdigest ex_genesis_def str_opt_def)

lemma ex_second_mined:
  "mine_block toy_sha toy_fmt 2 0 \<lparr>blocks = [ex_genesis], utxo_set = []\<rparr> [] ''miner''
   = Some (ex_second, \<lparr>blocks = [ex_genesis, ex_second], utxo_set = []\<rparr>)"
  by (simp add: mine_block_def Let_def get_latest_block_def ex_genesis_hash
      Block_calculate_merkle_root_def toy_hexdigest toy_mine add_block_def
      update_utxo_set_def ex_second_def)

theorem mine_block_chain_linkage_witness:
  "(\<exists>n\<ge>0. prefix (replicate (nat (max 1 2)) CHR ''0'')
             (pow_digest toy_sha (candidate_header toy_sha toy_fmt 2 0 init_ledger [] ''miner'') n))
   \<and> mine_block toy_sha toy_fmt 2 0 init_ledger [] ''miner''
     = Some (ex_genesis, \<lparr>blocks = [ex_genesis], utxo_set = []\<rparr>)
   \<and> blocks init_ledger = []
   \<and> prev_hash (header ex_genesis) = replicate 64 CHR ''0''
   \<and> mine_block toy_sha toy_fmt 2 0 \<lparr>blocks = [ex_genesis], utxo_set = []\<rparr> [] ''miner''
     = Some (ex_second, \<lparr>blocks = [ex_genesis, ex_second], utxo_set = []\<rparr>)
   \<and> prev_hash (header ex_second) = BlockHeader_calculate_hash toy_sha (header ex_genesis)
   \<and> prev_hash (header ex_second) = ''00ab''
   \<and> prev_hash (header ex_second) \<noteq> replicate 64 CHR ''0''"
proof -
  note spec = mine_block_chain_linkage [where sha = toy_sha and fmt = toy_fmt and d = 2 and now = 0
      and s = init_ledger and txs = "[]" and validator = "''miner''"]
  note link = spec [THEN conjunct2, THEN conjunct2, rule_format, OF ex_genesis_mined]
  have nz: "\<forall>b. toy_sha b \<noteq> replicate 32 (CHR 0x00)"
  proof
    fix b
    have "length (toy_sha b) = 2" by (simp add: toy_sha_def)
    then show "toy_sha b \<noteq> replicate 32 (CHR 0x00)" by auto
  qed
  have qualifies: "\<exists>n\<ge>0. prefix (replicate (nat (max 1 2)) CHR ''0'')
             (pow_digest toy_sha (candidate_header toy_sha toy_fmt 2 0 init_ledger [] ''miner'') n)"
    using spec [THEN conjunct2, THEN conjunct1] ex_genesis_mined by blast
  have empty: "blocks init_ledger = []" by (simp add: init_ledger_def)
  have first: "prev_hash (header ex_genesis) = replicate 64 CHR ''0''"
    using link [THEN conjunct1] empty by simp
  have second: "prev_hash (header ex_second) = BlockHeader_calculate_hash toy_sha (header ex_genesis)"
    by (rule link [THEN conjunct2, THEN conjunct2, THEN conjunct1, rule_format, OF ex_second_mined])
  have val: "prev_hash (header ex_second) = ''00ab''" by (simp add: ex_second_def)
  have differs: "prev_hash (header ex_second) \<noteq> replicate 64 CHR ''0''"
    by (rule link [THEN conjunct2, THEN conjunct2, THEN conjunct2, rule_format, OF nz [rule_format],
          THEN conjunct2, rule_format, OF ex_second_mined])
  show ?thesis
    by (intro conjI qualifies ex_genesis_mined empty first ex_second_mined second val differs)
qed

lemma ex_tx_spent:
  "spend_inputs \<lparr>blocks = bs, utxo_set = [(''g:0'', ex_utxo)]\<rparr> ex_tx
   = \<lparr>blocks = bs, utxo_set = []\<rparr>"
  by (simp add: spend_inputs_def remove_utxo_def ex_tx_def ex_input_def)

lemma ex_tx_added:
  "add_outputs \<lparr>blocks = bs, utxo_set = []\<rparr> ex_tx
   = \<lparr>blocks = bs, utxo_set = utxo_set ex_store_after\<rparr>"
  by (simp add: add_outputs_def add_utxo_def utxo_key_def str_opt_def ex_tx_def ex_outputs_def
      ex_store_after_def enumerate_simps)

lemma ex_tx_applied:
  "update_utxo_set \<lparr>blocks = bs, utxo_set = [(''g:0'', ex_utxo)]\<rparr> [ex_tx]
   = \<lparr>blocks = bs, utxo_set = utxo_set ex_store_after\<rparr>"
  by (simp add: update_utxo_set_def ex_tx_spent ex_tx_added)

lemma ex_tx_root:
  "Block_calculate_merkle_root toy_sha toy_fmt \<lparr>header = h, transactions = [ex_tx]\<rparr> = ''ffab''"
  by (simp add: Block_calculate_merkle_root_def merkle_loop_single ex_tx_hash)

lemma ex_tx_mined:
  "mine_block toy_sha toy_fmt 2 0 ex_store [ex_tx] ''miner'' = Some (ex_mined, ex_store_after)"
  by (simp add: mine_block_def Let_def get_latest_block_def ex_store_def ex_tx_root toy_mine
      add_block_def ex_tx_applied)
     (simp add: ex_store_after_def ex_mined_def ex_genesis_def)

lemma ex_tx_created_keys:
  "created_key ex_tx 0 = ''ffab:0''" "created_key ex_tx 1 = ''ffab:1''"
  by (simp_all add: created_key_def str_opt_def ex_tx_def)

lemma ex_tx_created_utxos:
  "created_utxos ex_tx
   = [(''ffab:0'', created_utxo ex_tx 0), (''ffab:1'', created_utxo ex_tx 1)]"
proof -
  have len: "length (outputs ex_tx) = 2"
    by (simp add: ex_tx_def ex_outputs_def)
  have upt: "[0 ..< 2] = [0, 1::nat]"
    by (simp add: numeral_2_eq_2)
  show ?thesis
    by (simp only: created_utxos_def len upt list.map ex_tx_created_keys)
qed

theorem mine_block_utxo_effects_witness:
  "mine_block toy_sha toy_fmt 2 0 ex_store [ex_tx] ''miner'' = Some (ex_mined, ex_store_after)
   \<and> map_of (utxo_set ex_store) ''g:0'' = Some ex_utxo
   \<and> UTXO.amount ex_utxo = 100
   \<and> spent_keys ex_tx = {''g:0''}
   \<and> map (\<lambda>out. (TxOut.amount out, address out)) (outputs ex_tx) = [(60, ex_alice), (40, ex_bob)]
   \<and> map_of (utxo_set ex_store_after) ''g:0'' = None
   \<and> map_of (utxo_set ex_store_after) ''ffab:0''
       = Some \<lparr>UTXO.tx_id = Some ''ffab'', UTXO.output_index = 0, UTXO.amount = 60,
               owner_address = ex_alice, UTXO.lock_script = None\<rparr>
   \<and> map_of (utxo_set ex_store_after) ''ffab:1''
       = Some \<lparr>UTXO.tx_id = Some ''ffab'', UTXO.output_index = 1, UTXO.amount = 40,
               owner_address = ex_bob, UTXO.lock_script = None\<rparr>
   \<and> dom (map_of (utxo_set ex_store_after)) = {''ffab:0'', ''ffab:1''}"
proof -
  note eff = mine_block_utxo_effects [OF ex_tx_mined]
  note created = eff [THEN conjunct2, THEN conjunct1, rule_format]
  note spent = eff [THEN conjunct2, THEN conjunct2, THEN conjunct1, rule_format]
  note doms = eff [THEN conjunct2, THEN conjunct2, THEN conjunct2, rule_format]
  have before: "map_of (utxo_set ex_store) ''g:0'' = Some ex_utxo"
    by (simp add: ex_store_def)
  have amount: "UTXO.amount ex_utxo = 100"
    by (simp add: ex_utxo_def)
  have keys: "spent_keys ex_tx = {''g:0''}"
    by (simp add: spent_keys_def reference_key_def ex_tx_def ex_input_def)
  have outs: "map (\<lambda>out. (TxOut.amount out, address out)) (outputs ex_tx)
              = [(60, ex_alice), (40, ex_bob)]"
    by (simp add: ex_tx_def ex_outputs_def)
  have len: "[ex_tx] = [ex_tx] \<and> 0 < length (outputs ex_tx)"
    "[ex_tx] = [ex_tx] \<and> 1 < length (outputs ex_tx)"
    by (simp_all add: ex_tx_def ex_outputs_def)
  have v0: "created_utxo ex_tx 0
            = \<lparr>UTXO.tx_id = Some ''ffab'', UTXO.output_index = 0, UTXO.amount = 60,
               owner_address = ex_alice, UTXO.lock_script = None\<rparr>"
    by (simp add: created_utxo_def ex_tx_def ex_outputs_def)
  have v1: "created_utxo ex_tx 1
            = \<lparr>UTXO.tx_id = Some ''ffab'', UTXO.output_index = 1, UTXO.amount = 40,
               owner_address = ex_bob, UTXO.lock_script = None\<rparr>"
    by (simp add: created_utxo_def ex_tx_def ex_outputs_def)
  have u0: "map_of (utxo_set ex_store_after) ''ffab:0''
       = Some \<lparr>UTXO.tx_id = Some ''ffab'', UTXO.output_index = 0, UTXO.amount = 60,
               owner_address = ex_alice, UTXO.lock_script = None\<rparr>"
    using created [OF len(1)] by (simp only: ex_tx_created_keys v0)
  have u1: "map_of (utxo_set ex_store_after) ''ffab:1''
       = Some \<lparr>UTXO.tx_id = Some ''ffab'', UTXO.output_index = 1, UTXO.amount = 40,
               owner_address = ex_bob, UTXO.lock_script = None\<rparr>"
    using created [OF len(2)] by (simp only: ex_tx_created_keys v1)
  have "[ex_tx] = [ex_tx] \<and> ''g:0'' \<in> spent_keys ex_tx
        \<and> ''g:0'' \<notin> fst ` set (created_utxos ex_tx)"
    by (simp add: keys ex_tx_created_utxos)
  then have gone: "map_of (utxo_set ex_store_after) ''g:0'' = None"
    by (rule spent)
  have "dom (map_of (utxo_set ex_store_after))
        = (dom (map_of (utxo_set ex_store)) - spent_keys ex_tx) \<union> fst ` set (created_utxos ex_tx)"
    by (rule doms) simp
  then have doms': "dom (map_of (utxo_set ex_store_after)) = {''ffab:0'', ''ffab:1''}"
    by (simp add: keys ex_tx_created_utxos ex_store_def)
  show ?thesis
    by (intro conjI ex_tx_mined before amount keys outs gone u0 u1 doms')
qed

section \<open>Properties of creating a transaction\<close>















text \<open>
  The outcome follows the total as the addition rounds it, not the exact total: with
  the stand-in that rounds down, two UTXOs of 4.5 accumulate to 8, and a request for 9
  fails although they hold 9 together.
\<close>

lemma toy_fadd_halves:
  "toy_fadd 0 (9 / 2) = 4" "toy_fadd 4 (9 / 2) = 8"
proof -
  have "\<lfloor>(9::rat) / 2\<rfloor> = 4" by (rule floor_unique) simp_all
  then show "toy_fadd 0 (9 / 2) = 4" by (simp add: toy_fadd_def)
  have "\<lfloor>(4::rat) + 9 / 2\<rfloor> = 8" by (rule floor_unique) simp_all
  then show "toy_fadd 4 (9 / 2) = 8" by (simp only: toy_fadd_def of_int_numeral)
qed

lemma create_transaction_rounds:
  "create_transaction toy_sha toy_fmt toy_fadd toy_psum ex_half_store ex_carol ex_pay9
   = Inl (InsufficientFundsException ex_carol 9 8)"
  by (simp add: create_transaction_def all_utxos_def ex_half_store_def Let_def
      ex_pay9_def toy_fadd_halves toy_psum_def)

lemma ex_same_id_hash: "Transaction_calculate_hash toy_sha toy_fmt ex_same_id_tx = ''ffab''"
  by (simp add: Transaction_calculate_hash_def toy_hexdigest ex_same_id_tx_def ex_input_def
      ex_outputs_def ex_alice_def ex_bob_def)

lemma ex_same_id_spent:
  "spend_inputs \<lparr>blocks = bs, utxo_set = [(''g:0'', ex_utxo)]\<rparr> ex_same_id_tx
   = \<lparr>blocks = bs, utxo_set = []\<rparr>"
  by (simp add: spend_inputs_def remove_utxo_def ex_same_id_tx_def ex_input_def)

lemma ex_same_id_added:
  "add_outputs \<lparr>blocks = bs, utxo_set = []\<rparr> ex_same_id_tx
   = \<lparr>blocks = bs, utxo_set = utxo_set ex_same_id_after\<rparr>"
  by (simp add: add_outputs_def add_utxo_def utxo_key_def str_opt_def ex_same_id_tx_def
      ex_outputs_def ex_same_id_after_def enumerate_simps)

lemma ex_same_id_applied:
  "update_utxo_set \<lparr>blocks = bs, utxo_set = [(''g:0'', ex_utxo)]\<rparr> [ex_same_id_tx]
   = \<lparr>blocks = bs, utxo_set = utxo_set ex_same_id_after\<rparr>"
  by (simp add: update_utxo_set_def ex_same_id_spent ex_same_id_added)

lemma ex_same_id_root:
  "Block_calculate_merkle_root toy_sha toy_fmt \<lparr>header = h, transactions = [ex_same_id_tx]\<rparr>
   = ''ffab''"
  by (simp add: Block_calculate_merkle_root_def merkle_loop_single ex_same_id_hash)

text \<open>
  Claim C1 says that after mining one transaction that spends a UTXO \<open>U\<close> of 100 into
  outputs of 60 and 40, \<open>U\<close>'s key is absent. The outputs are added after the inputs
  are removed, under keys made of the transaction's own \<open>tx_id\<close>, which the caller
  sets: a transaction whose \<open>tx_id\<close> is that of \<open>U\<close> puts its first output under \<open>U\<close>'s
  key again.
\<close>

theorem spent_key_present_after_mining:
  "map_of (utxo_set ex_store) ''g:0'' = Some ex_utxo
   \<and> UTXO.amount ex_utxo = 100
   \<and> map reference_key (inputs ex_same_id_tx) = [''g:0'']
   \<and> map TxOut.amount (outputs ex_same_id_tx) = [60, 40]
   \<and> mine_block toy_sha toy_fmt 2 0 ex_store [ex_same_id_tx] ''miner''
       = Some (ex_same_id_mined, ex_same_id_after)
   \<and> map_of (utxo_set ex_same_id_after) ''g:0''
       = Some \<lparr>UTXO.tx_id = Some ''g'', UTXO.output_index = 0, UTXO.amount = 60,
               owner_address = ex_alice, UTXO.lock_script = None\<rparr>"
proof -
  have before: "map_of (utxo_set ex_store) ''g:0'' = Some ex_utxo"
    by (simp add: ex_store_def)
  have amount: "UTXO.amount ex_utxo = 100"
    by (simp add: ex_utxo_def)
  have keys: "map reference_key (inputs ex_same_id_tx) = [''g:0'']"
    by (simp add: reference_key_def ex_same_id_tx_def ex_input_def)
  have outs: "map TxOut.amount (outputs ex_same_id_tx) = [60, 40]"
    by (simp add: ex_same_id_tx_def ex_outputs_def)
  have run: "mine_block toy_sha toy_fmt 2 0 ex_store [ex_same_id_tx] ''miner''
             = Some (ex_same_id_mined, ex_same_id_after)"
    by (simp add: mine_block_def Let_def get_latest_block_def ex_store_def ex_same_id_root
        toy_mine add_block_def ex_same_id_applied)
       (simp add: ex_same_id_after_def ex_same_id_mined_def ex_genesis_def)
  have after: "map_of (utxo_set ex_same_id_after) ''g:0''
       = Some \<lparr>UTXO.tx_id = Some ''g'', UTXO.output_index = 0, UTXO.amount = 60,
               owner_address = ex_alice, UTXO.lock_script = None\<rparr>"
    by (simp add: ex_same_id_after_def)
  show ?thesis by (intro conjI before amount keys outs run after)
qed

end
